theory Spec2Isabelle
  imports Complex_Main "HOL-Library.AList"
begin

section \<open>Floating-point values with undefined results\<close>

text \<open>
  The analysis code computes on pandas/numpy \<^verbatim>\<open>float64\<close> values. A value is a finite
  number, one of the two infinities, or NaN. Finite arithmetic is modelled exactly (no
  rounding, no overflow, no signed zero); what is modelled faithfully is how undefined
  values arise and propagate: numpy division by zero yields an infinity or NaN instead of
  raising, every comparison with NaN is false, and \<^verbatim>\<open>dropna\<close> removes NaN but keeps
  the infinities.
\<close>

datatype fl = Fin real | PInf | NInf | NaN

fun fneg :: "fl \<Rightarrow> fl" where
  "fneg (Fin x) = Fin (- x)"
| "fneg PInf = NInf"
| "fneg NInf = PInf"
| "fneg NaN = NaN"

fun fadd :: "fl \<Rightarrow> fl \<Rightarrow> fl" where
  "fadd NaN _ = NaN"
| "fadd _ NaN = NaN"
| "fadd (Fin x) (Fin y) = Fin (x + y)"
| "fadd PInf NInf = NaN"
| "fadd NInf PInf = NaN"
| "fadd PInf _ = PInf"
| "fadd NInf _ = NInf"
| "fadd (Fin x) PInf = PInf"
| "fadd (Fin x) NInf = NInf"

definition fsub :: "fl \<Rightarrow> fl \<Rightarrow> fl" where
  "fsub a b = fadd a (fneg b)"

fun fmul :: "fl \<Rightarrow> fl \<Rightarrow> fl" where
  "fmul NaN _ = NaN"
| "fmul _ NaN = NaN"
| "fmul (Fin x) (Fin y) = Fin (x * y)"
| "fmul (Fin x) PInf = (if x > 0 then PInf else if x < 0 then NInf else NaN)"
| "fmul (Fin x) NInf = (if x > 0 then NInf else if x < 0 then PInf else NaN)"
| "fmul PInf (Fin y) = (if y > 0 then PInf else if y < 0 then NInf else NaN)"
| "fmul NInf (Fin y) = (if y > 0 then NInf else if y < 0 then PInf else NaN)"
| "fmul PInf PInf = PInf"
| "fmul NInf NInf = PInf"
| "fmul PInf NInf = NInf"
| "fmul NInf PInf = NInf"

text \<open>numpy true division: a zero divisor never raises.\<close>

fun fdiv :: "fl \<Rightarrow> fl \<Rightarrow> fl" where
  "fdiv NaN _ = NaN"
| "fdiv _ NaN = NaN"
| "fdiv (Fin x) (Fin y) =
     (if y \<noteq> 0 then Fin (x / y)
      else if x > 0 then PInf else if x < 0 then NInf else NaN)"
| "fdiv (Fin x) PInf = Fin 0"
| "fdiv (Fin x) NInf = Fin 0"
| "fdiv PInf (Fin y) = (if y < 0 then NInf else PInf)"
| "fdiv NInf (Fin y) = (if y < 0 then PInf else NInf)"
| "fdiv PInf PInf = NaN"
| "fdiv PInf NInf = NaN"
| "fdiv NInf PInf = NaN"
| "fdiv NInf NInf = NaN"

text \<open>\<^verbatim>\<open>np.log\<close>: minus infinity at zero, NaN on negative arguments.\<close>

fun flog :: "fl \<Rightarrow> fl" where
  "flog (Fin x) = (if x > 0 then Fin (ln x) else if x = 0 then NInf else NaN)"
| "flog PInf = PInf"
| "flog NInf = NaN"
| "flog NaN = NaN"

fun fabs :: "fl \<Rightarrow> fl" where
  "fabs (Fin x) = Fin \<bar>x\<bar>"
| "fabs PInf = PInf"
| "fabs NInf = PInf"
| "fabs NaN = NaN"

text \<open>\<^verbatim>\<open>np.sign\<close>.\<close>

fun np_sign :: "fl \<Rightarrow> fl" where
  "np_sign (Fin x) = Fin (sgn x)"
| "np_sign PInf = Fin 1"
| "np_sign NInf = Fin (- 1)"
| "np_sign NaN = NaN"

text \<open>The comparisons \<^verbatim>\<open>a > b\<close>, \<^verbatim>\<open>a < b\<close> and \<^verbatim>\<open>a == b\<close>; each is false
  as soon as one side is NaN.\<close>

fun fgt :: "fl \<Rightarrow> fl \<Rightarrow> bool" where
  "fgt NaN _ = False"
| "fgt _ NaN = False"
| "fgt (Fin x) (Fin y) = (x > y)"
| "fgt PInf PInf = False"
| "fgt PInf _ = True"
| "fgt NInf _ = False"
| "fgt (Fin x) PInf = False"
| "fgt (Fin x) NInf = True"

definition flt :: "fl \<Rightarrow> fl \<Rightarrow> bool" where
  "flt a b = fgt b a"

definition feq :: "fl \<Rightarrow> fl \<Rightarrow> bool" where
  "feq a b = (a \<noteq> NaN \<and> b \<noteq> NaN \<and> a = b)"

definition fge :: "fl \<Rightarrow> fl \<Rightarrow> bool" where
  "fge a b = (fgt a b \<or> feq a b)"

definition is_nan :: "fl \<Rightarrow> bool" where
  "is_nan a = (a = NaN)"

section \<open>Series operations\<close>

text \<open>A pandas Series is the list of its values in row order; rows are addressed by
  position (row labels are the unique snapshot timestamps, so label alignment of two
  columns of one frame is positional).\<close>

type_synonym series = "fl list"

definition cell :: "series \<Rightarrow> nat \<Rightarrow> fl" where
  "cell xs t = (if t < length xs then xs ! t else NaN)"

text \<open>\<^verbatim>\<open>s.shift(k)\<close>: row t receives the value of row t - k, NaN when that row does
  not exist; k may be negative.\<close>

definition shift :: "series \<Rightarrow> int \<Rightarrow> series" where
  "shift xs k =
     map (\<lambda>t. let j = int t - k
               in if 0 \<le> j \<and> j < int (length xs) then xs ! nat j else NaN)
         [0..<length xs]"

definition series_div :: "series \<Rightarrow> series \<Rightarrow> series" where
  "series_div xs ys = map (\<lambda>(a, b). fdiv a b) (zip xs ys)"

definition np_log :: "series \<Rightarrow> series" where
  "np_log xs = map flog xs"

definition dropna :: "series \<Rightarrow> series" where
  "dropna xs = filter (\<lambda>x. x \<noteq> NaN) xs"

fun the_fin :: "fl \<Rightarrow> real" where
  "the_fin (Fin x) = x"
| "the_fin _ = 0"

fun is_fin :: "fl \<Rightarrow> bool" where
  "is_fin (Fin x) = True"
| "is_fin _ = False"

definition mean_r :: "real list \<Rightarrow> real" where
  "mean_r xs = sum_list xs / real (length xs)"

definition sumsq_dev :: "real list \<Rightarrow> real" where
  "sumsq_dev xs = (\<Sum>x\<leftarrow>xs. (x - mean_r xs) ^ 2)"

text \<open>\<^verbatim>\<open>Series.var()\<close>: NaN entries are skipped, the estimator divides by the count
  minus one, fewer than two values give NaN, and an infinite entry makes the deviations
  undefined.\<close>

definition var :: "series \<Rightarrow> fl" where
  "var xs =
     (let ys = dropna xs; n = length ys
      in if n < 2 then NaN
         else if \<not> list_all is_fin ys then NaN
         else Fin (sumsq_dev (map the_fin ys) / (real n - 1)))"

text \<open>\<^verbatim>\<open>np.mean\<close> of a Python list: the sum over the count; the empty list gives NaN
  (with a warning, not an exception).\<close>

definition np_mean :: "fl list \<Rightarrow> fl" where
  "np_mean xs =
     (if xs = [] then NaN else fdiv (foldl fadd (Fin 0) xs) (Fin (real (length xs))))"

section \<open>Data frames\<close>

text \<open>A DataFrame is its row count and its columns in order, each a series. A column is
  read through \<open>column\<close>, which presents it at the frame's row count. The columns are the
  numeric ones; a text column such as \<^verbatim>\<open>symbol\<close> has an entry in every row and influences
  none of the operations below.\<close>

record frame =
  nrows :: nat
  cols :: "(string \<times> series) list"

datatype error =
    ValueError_required_columns
  | ValueError_max_empty
  | KeyError string

definition has_column :: "frame \<Rightarrow> string \<Rightarrow> bool" where
  "has_column df c = (c \<in> fst ` set (cols df))"

definition fit :: "nat \<Rightarrow> series \<Rightarrow> series" where
  "fit n xs = map (cell xs) [0..<n]"

definition column :: "frame \<Rightarrow> string \<Rightarrow> error + series" where
  "column df c =
     (case map_of (cols df) c of
        None \<Rightarrow> Inl (KeyError c)
      | Some xs \<Rightarrow> Inr (fit (nrows df) xs))"

text \<open>\<^verbatim>\<open>df[c] = xs\<close>: overwrite the column in place or append a new one.\<close>

definition set_column :: "frame \<Rightarrow> string \<Rightarrow> series \<Rightarrow> frame" where
  "set_column df c xs = df\<lparr>cols := AList.update c xs (cols df)\<rparr>"

section \<open>Variance-ratio test\<close>

record vr_results =
  variance_ratios :: "(int \<times> fl) list"
  average_vr :: fl
  market_characterization :: string

definition log_returns_k :: "series \<Rightarrow> int \<Rightarrow> series" where
  "log_returns_k p k = dropna (np_log (series_div p (shift p k)))"

definition var_ratio :: "series \<Rightarrow> fl \<Rightarrow> int \<Rightarrow> fl" where
  "var_ratio p variance k =
     fdiv (var (log_returns_k p k)) (fmul (Fin (of_int k)) variance)"

definition characterize :: "fl \<Rightarrow> string" where
  "characterize avg_vr =
     (if fgt avg_vr (Fin (11 / 10)) then ''Trending/Momentum''
      else if flt avg_vr (Fin (9 / 10)) then ''Mean-reverting''
      else ''Approximately efficient (random walk)'')"

definition test_market_efficiency :: "frame \<Rightarrow> int list \<Rightarrow> error + vr_results" where
  "test_market_efficiency df lags =
     (case column df ''mid_price'' of
        Inl e \<Rightarrow> Inl e
      | Inr p \<Rightarrow>
          (let variance = var (log_returns_k p 1);
               ratios = fold (\<lambda>k vrs. AList.update k (var_ratio p variance k) vrs) lags [];
               avg_vr = np_mean (map snd ratios)
           in Inr \<lparr>variance_ratios = ratios,
                   average_vr = avg_vr,
                   market_characterization = characterize avg_vr\<rparr>))"

section \<open>Imbalance hypothesis test\<close>

text \<open>\<^verbatim>\<open>s.ffill()\<close>: a NaN entry takes the last value before it that is not NaN; leading
  NaN entries stay.\<close>

fun ffill_from :: "fl \<Rightarrow> series \<Rightarrow> series" where
  "ffill_from prev [] = []"
| "ffill_from prev (x # xs) =
     (if x = NaN then prev # ffill_from prev xs else x # ffill_from x xs)"

definition ffill :: "series \<Rightarrow> series" where
  "ffill xs = ffill_from NaN xs"

text \<open>\<^verbatim>\<open>s.pct_change(periods=h)\<close> with the default \<^verbatim>\<open>fill_method\<close> of pandas 2 fills
  missing prices forward and then computes \<^verbatim>\<open>s / s.shift(h) - 1\<close>, so
  \<^verbatim>\<open>pct_change(periods=h).shift(-h)\<close> puts at row t the return from row t to row t + h.
  On a price column without NaN the filling changes nothing.\<close>

definition pct_change :: "series \<Rightarrow> int \<Rightarrow> series" where
  "pct_change p h =
     (let q = ffill p in map (\<lambda>x. fsub x (Fin 1)) (series_div q (shift q h)))"

definition forward_returns :: "series \<Rightarrow> int \<Rightarrow> series" where
  "forward_returns p h = shift (pct_change p h) (- h)"

text \<open>\<^verbatim>\<open>Series.corr\<close> (Pearson): rows where either value is NaN are dropped pairwise;
  fewer than two remaining rows, an infinite value or a constant side give NaN.\<close>

definition corr :: "series \<Rightarrow> series \<Rightarrow> fl" where
  "corr xs ys =
     (let ps = filter (\<lambda>(a, b). a \<noteq> NaN \<and> b \<noteq> NaN) (zip xs ys);
          as = map fst ps; bs = map snd ps
      in if length ps < 2 then NaN
         else if \<not> (list_all is_fin as \<and> list_all is_fin bs) then NaN
         else
           (let ar = map the_fin as; br = map the_fin bs;
                sxy = (\<Sum>(a, b)\<leftarrow>zip ar br. (a - mean_r ar) * (b - mean_r br));
                sxx = sumsq_dev ar; syy = sumsq_dev br
            in if sxx = 0 \<or> syy = 0 then NaN
               else Fin (max (- 1) (min 1 (sxy / (sqrt sxx * sqrt syy))))))"

text \<open>Python's \<^verbatim>\<open>max(iterable, key=f)\<close>: the first element is the running maximum and a
  later element replaces it only when its key compares strictly greater; the empty
  iterable raises \<^verbatim>\<open>ValueError\<close>.\<close>

fun max_from :: "('a \<Rightarrow> fl) \<Rightarrow> 'a \<Rightarrow> 'a list \<Rightarrow> 'a" where
  "max_from key m [] = m"
| "max_from key m (x # xs) = (if fgt (key x) (key m) then max_from key x xs else max_from key m xs)"

definition py_max :: "'a list \<Rightarrow> ('a \<Rightarrow> fl) \<Rightarrow> error + 'a" where
  "py_max xs key = (case xs of [] \<Rightarrow> Inl ValueError_max_empty | x # rest \<Rightarrow> Inr (max_from key x rest))"

text \<open>\<^verbatim>\<open>d.get\<close> on a float-valued dict, used only on keys of the dict itself.\<close>

definition dict_get :: "('k \<times> fl) list \<Rightarrow> 'k \<Rightarrow> fl" where
  "dict_get d k = (case map_of d k of Some v \<Rightarrow> v | None \<Rightarrow> NaN)"

text \<open>\<^verbatim>\<open>df[mask]\<close> keeps the rows whose entry in the boolean series is true; \<^verbatim>\<open>df.dropna()\<close> keeps the
  rows that have no NaN in any column.\<close>

definition select_rows :: "frame \<Rightarrow> bool list \<Rightarrow> frame" where
  "select_rows df keep =
     \<lparr>nrows = length (filter id (take (nrows df) keep)),
      cols = map (\<lambda>(c, xs). (c, map snd (filter fst (zip keep (fit (nrows df) xs))))) (cols df)\<rparr>"

definition row_complete :: "frame \<Rightarrow> nat \<Rightarrow> bool" where
  "row_complete df t = list_all (\<lambda>(c, xs). cell xs t \<noteq> NaN) (cols df)"

definition frame_dropna :: "frame \<Rightarrow> frame" where
  "frame_dropna df = select_rows df (map (row_complete df) [0..<nrows df])"

record imbalance_results =
  correlations :: "(int \<times> fl) list"
  best_horizon :: int
  directional_accuracy :: "(real \<times> fl) list"

definition sign_matches :: "series \<Rightarrow> series \<Rightarrow> nat" where
  "sign_matches xs ys = length (filter (\<lambda>(a, b). feq (np_sign a) (np_sign b)) (zip xs ys))"

definition accuracy_step :: "frame \<Rightarrow> real \<Rightarrow> (real \<times> fl) list \<Rightarrow> (real \<times> fl) list" where
  "accuracy_step df threshold accuracies =
     (case column df ''imbalance_5'' of
        Inl e \<Rightarrow> accuracies
      | Inr imb \<Rightarrow>
          (let strong_imbalance = map (\<lambda>x. fgt (fabs x) (Fin threshold)) imb;
               subset = frame_dropna (select_rows df strong_imbalance)
           in if nrows subset > 0
              then (case (column subset ''imbalance_5'', column subset ''returns'') of
                      (Inr si, Inr sr) \<Rightarrow>
                        AList.update threshold
                          (Fin (real (sign_matches si sr) / real (nrows subset))) accuracies
                    | _ \<Rightarrow> accuracies)
              else accuracies))"

text \<open>The function receives the caller's frame by reference and assigns a column to it, so
  the model returns the frame as it is after the call together with the outcome.\<close>

definition test_imbalance_hypothesis ::
  "frame \<Rightarrow> int list \<Rightarrow> real list \<Rightarrow> frame \<times> (error + imbalance_results)" where
  "test_imbalance_hypothesis df horizons thresholds =
     (if \<not> has_column df ''mid_price'' \<or> \<not> has_column df ''imbalance_5''
      then (df, Inl ValueError_required_columns)
      else
        (case (column df ''mid_price'', column df ''imbalance_5'') of
           (Inr p, Inr imb) \<Rightarrow>
             (let cs = fold (\<lambda>h acc. AList.update h (corr imb (forward_returns p h)) acc)
                         horizons []
              in case py_max (map fst cs) (dict_get cs) of
                   Inl e \<Rightarrow> (df, Inl e)
                 | Inr best_h \<Rightarrow>
                     (let df' = set_column df ''returns'' (forward_returns p best_h);
                          accuracies = fold (accuracy_step df') thresholds []
                      in (df', Inr \<lparr>correlations = cs,
                                    best_horizon = best_h,
                                    directional_accuracy = accuracies\<rparr>)))
         | (Inl e, _) \<Rightarrow> (df, Inl e)
         | (_, Inl e) \<Rightarrow> (df, Inl e)))"

section \<open>Order-book snapshots\<close>

text \<open>Exceptions are values. \<^verbatim>\<open>IndexError\<close>, \<^verbatim>\<open>ZeroDivisionError\<close>, \<^verbatim>\<open>AttributeError\<close> and
  \<^verbatim>\<open>OSError\<close> derive from \<^verbatim>\<open>Exception\<close>, and so do the errors of the \<^verbatim>\<open>ccxt\<close> hierarchy,
  which \<open>ConnectorError\<close> stands for. \<^verbatim>\<open>KeyboardInterrupt\<close> and \<^verbatim>\<open>SystemExit\<close> derive from
  \<^verbatim>\<open>BaseException\<close> only: a clause \<^verbatim>\<open>except Exception\<close> does not catch them.\<close>

datatype exn = IndexError | ZeroDivisionError | AttributeError | ConnectorError | OSError
  | KeyboardInterrupt | SystemExit

fun is_Exception :: "exn \<Rightarrow> bool" where
  "is_Exception KeyboardInterrupt = False"
| "is_Exception SystemExit = False"
| "is_Exception IndexError = True"
| "is_Exception ZeroDivisionError = True"
| "is_Exception AttributeError = True"
| "is_Exception ConnectorError = True"
| "is_Exception OSError = True"

definition bind :: "exn + 'a \<Rightarrow> ('a \<Rightarrow> exn + 'b) \<Rightarrow> exn + 'b" where
  "bind m f = (case m of Inl e \<Rightarrow> Inl e | Inr x \<Rightarrow> f x)"

text \<open>Prices and sizes delivered by the connector are Python floats: finite numbers,
  infinities or NaN. The operators \<^verbatim>\<open>+\<close>, \<^verbatim>\<open>-\<close>, \<^verbatim>\<open>*\<close> and \<^verbatim>\<open>/\<close> on floats never raise
  \<^verbatim>\<open>OverflowError\<close>: a result whose magnitude reaches the overflow threshold of the
  binary64 format is an infinity. Finite results below the threshold are not rounded.
  Division by zero raises \<^verbatim>\<open>ZeroDivisionError\<close>.\<close>

definition overflow_threshold :: real where
  "overflow_threshold = 2 ^ 1024 - 2 ^ 970"

fun overflow :: "fl \<Rightarrow> fl" where
  "overflow (Fin x) =
     (if overflow_threshold \<le> x then PInf
      else if x \<le> - overflow_threshold then NInf else Fin x)"
| "overflow PInf = PInf"
| "overflow NInf = NInf"
| "overflow NaN = NaN"

definition py_add :: "fl \<Rightarrow> fl \<Rightarrow> fl" where
  "py_add a b = overflow (fadd a b)"

definition py_sub :: "fl \<Rightarrow> fl \<Rightarrow> fl" where
  "py_sub a b = overflow (fsub a b)"

definition py_mul :: "fl \<Rightarrow> fl \<Rightarrow> fl" where
  "py_mul a b = overflow (fmul a b)"

text \<open>\<^verbatim>\<open>a / b\<close>: the quotient for a non-zero divisor, an exception for a zero one.\<close>

definition py_quotient :: "fl \<Rightarrow> fl \<Rightarrow> fl" where
  "py_quotient a b = overflow (fdiv a b)"

definition py_div :: "fl \<Rightarrow> fl \<Rightarrow> exn + fl" where
  "py_div a b = (if b = Fin 0 then Inl ZeroDivisionError else Inr (py_quotient a b))"

text \<open>\<^verbatim>\<open>sum(xs)\<close> adds from the left, starting at 0.\<close>

definition py_sum :: "fl list \<Rightarrow> fl" where
  "py_sum xs = foldl py_add (Fin 0) xs"

text \<open>A level is the list \<^verbatim>\<open>[price, size, ...]\<close>; reading a missing position raises
  \<^verbatim>\<open>IndexError\<close>. The connector answers a request with an order book or raises.\<close>

type_synonym level = "fl list"

record orderbook =
  ob_bids :: "level list"
  ob_asks :: "level list"

record exchange =
  fetch_order_book :: "string \<Rightarrow> nat \<Rightarrow> exn + orderbook"
  load_markets :: "exn + unit"
  enableRateLimit :: bool

definition item :: "'a list \<Rightarrow> nat \<Rightarrow> exn + 'a" where
  "item xs i = (if i < length xs then Inr (xs ! i) else Inl IndexError)"

text \<open>\<^verbatim>\<open>side[0][i] if side else None\<close>.\<close>

definition top_field :: "level list \<Rightarrow> nat \<Rightarrow> exn + fl option" where
  "top_field side i =
     (case side of [] \<Rightarrow> Inr None | l # _ \<Rightarrow> bind (item l i) (\<lambda>v. Inr (Some v)))"

fun sizes :: "level list \<Rightarrow> exn + fl list" where
  "sizes [] = Inr []"
| "sizes (l # ls) = bind (item l 1) (\<lambda>v. bind (sizes ls) (\<lambda>vs. Inr (v # vs)))"

text \<open>\<^verbatim>\<open>sum([l[1] for l in side[:n]]) if len(side) >= n else None\<close>.\<close>

definition depth_sum :: "level list \<Rightarrow> nat \<Rightarrow> exn + fl option" where
  "depth_sum side n =
     (if length side \<ge> n then bind (sizes (take n side)) (\<lambda>vs. Inr (Some (py_sum vs)))
      else Inr None)"

text \<open>A snapshot dict. The keys written by the dict literal always exist and may hold
  \<^verbatim>\<open>None\<close>; the four derived keys exist only when they were assigned, and then hold a
  float. Both are option fields. \<open>datetime\<close> holds the clock reading whose ISO text the
  code stores. The row type is the snapshot without the two nested level lists.\<close>

record row =
  timestamp :: int
  datetime :: real
  symbol :: string
  best_bid :: "fl option"
  best_ask :: "fl option"
  best_bid_size :: "fl option"
  best_ask_size :: "fl option"
  bid_depth_5 :: "fl option"
  ask_depth_5 :: "fl option"
  bid_depth_10 :: "fl option"
  ask_depth_10 :: "fl option"
  spread :: "fl option"
  spread_bps :: "fl option"
  mid_price :: "fl option"
  imbalance_5 :: "fl option"

record snapshot = row +
  bids :: "level list"
  asks :: "level list"

text \<open>Truth value of a dict entry holding a float or \<^verbatim>\<open>None\<close>: only \<^verbatim>\<open>None\<close> and zero are
  false; infinities and NaN are true.\<close>

definition truthy :: "fl option \<Rightarrow> bool" where
  "truthy v = (case v of None \<Rightarrow> False | Some x \<Rightarrow> x \<noteq> Fin 0)"

text \<open>\<^verbatim>\<open>int(x)\<close> truncates towards zero.\<close>

definition py_int :: "real \<Rightarrow> int" where
  "py_int x = (if x \<ge> 0 then \<lfloor>x\<rfloor> else \<lceil>x\<rceil>)"

definition derived_metrics :: "snapshot \<Rightarrow> exn + snapshot" where
  "derived_metrics s =
     (if truthy (best_bid s) \<and> truthy (best_ask s)
      then
        (let bb = the (best_bid s); ba = the (best_ask s); sp = py_sub ba bb
         in bind (py_div sp bb) (\<lambda>q.
            bind (py_div (py_add bb ba) (Fin 2)) (\<lambda>mid.
              let s1 = s\<lparr>spread := Some sp, spread_bps := Some (py_mul q (Fin 10000)),
                          mid_price := Some mid\<rparr>
              in if truthy (bid_depth_5 s1) \<and> truthy (ask_depth_5 s1)
                 then
                   (let total_depth = py_add (the (bid_depth_5 s1)) (the (ask_depth_5 s1))
                    in bind (py_div (py_sub (the (bid_depth_5 s1)) (the (ask_depth_5 s1)))
                               total_depth)
                         (\<lambda>i. Inr (s1\<lparr>imbalance_5 := Some i\<rparr>)))
                 else Inr s1)))
      else Inr s)"

text \<open>The body of the \<^verbatim>\<open>try\<close> block of \<^verbatim>\<open>fetch_orderbook_snapshot\<close>.\<close>

definition fetch_try :: "exchange \<Rightarrow> real \<Rightarrow> string \<Rightarrow> nat \<Rightarrow> exn + snapshot" where
  "fetch_try ex snapshot_time symb depth =
     bind (fetch_order_book ex symb depth) (\<lambda>ob.
     bind (top_field (ob_bids ob) 0) (\<lambda>bb.
     bind (top_field (ob_asks ob) 0) (\<lambda>ba.
     bind (top_field (ob_bids ob) 1) (\<lambda>bbs.
     bind (top_field (ob_asks ob) 1) (\<lambda>bas.
     bind (depth_sum (ob_bids ob) 5) (\<lambda>bd5.
     bind (depth_sum (ob_asks ob) 5) (\<lambda>ad5.
     bind (depth_sum (ob_bids ob) 10) (\<lambda>bd10.
     bind (depth_sum (ob_asks ob) 10) (\<lambda>ad10.
       derived_metrics
         \<lparr>timestamp = py_int (snapshot_time * 1000), datetime = snapshot_time,
          symbol = symb,
          best_bid = bb, best_ask = ba, best_bid_size = bbs, best_ask_size = bas,
          bid_depth_5 = bd5, ask_depth_5 = ad5, bid_depth_10 = bd10, ask_depth_10 = ad10,
          spread = None, spread_bps = None, mid_price = None, imbalance_5 = None,
          bids = take depth (ob_bids ob), asks = take depth (ob_asks ob)\<rparr>)))))))))"

text \<open>What the program does to its surroundings: it sleeps, prints lines and writes the
  CSV file. Each of these calls returns or raises; which one is the answer of the world
  the program runs in. \<open>PrintFetchError\<close> and \<open>PrintInitError\<close> are the lines printed by the
  two exception handlers, \<open>Banner\<close> and \<open>Summary\<close> the numbered lines printed before and
  after the collection.\<close>

datatype effect = Sleep real | WarnBehind real | LogSnapshot nat | LogError nat
  | PrintFetchError exn | PrintInitError exn | Banner nat | WriteCsv "row list"
  | Summary nat | NoSnapshots

type_synonym world = "effect \<Rightarrow> exn + unit"

fun perform_all :: "world \<Rightarrow> effect list \<Rightarrow> exn + unit" where
  "perform_all wd [] = Inr ()"
| "perform_all wd (e # es) = bind (wd e) (\<lambda>_. perform_all wd es)"

text \<open>\<^verbatim>\<open>except Exception as e\<close>: an exception of the body that derives from \<^verbatim>\<open>Exception\<close> is
  printed and the result is \<^verbatim>\<open>None\<close>; the \<^verbatim>\<open>print\<close> of the handler is outside the \<^verbatim>\<open>try\<close>, so
  what it raises reaches the caller, and so does every other exception of the body.\<close>

definition fetch_orderbook_snapshot ::
  "world \<Rightarrow> exchange \<Rightarrow> real \<Rightarrow> string \<Rightarrow> nat \<Rightarrow> exn + snapshot option" where
  "fetch_orderbook_snapshot wd ex snapshot_time symb depth =
     (case fetch_try ex snapshot_time symb depth of
        Inr s \<Rightarrow> Inr (Some s)
      | Inl e \<Rightarrow>
          if is_Exception e then bind (wd (PrintFetchError e)) (\<lambda>_. Inr None) else Inl e)"

text \<open>The \<^verbatim>\<open>ccxt\<close> module maps an exchange name to a class, or has no such attribute;
  calling the class builds an exchange object or raises.\<close>

type_synonym ccxt_module = "string \<Rightarrow> (exn + exchange) option"

definition initialise_try :: "ccxt_module \<Rightarrow> string \<Rightarrow> exn + exchange" where
  "initialise_try ccxt exchange_id =
     (case ccxt exchange_id of
        None \<Rightarrow> Inl AttributeError
      | Some ctor \<Rightarrow>
          bind ctor (\<lambda>ex.
          bind (load_markets ex) (\<lambda>_. Inr (ex\<lparr>enableRateLimit := True\<rparr>))))"

definition initialise_exchange :: "world \<Rightarrow> ccxt_module \<Rightarrow> string \<Rightarrow> exn + exchange option" where
  "initialise_exchange wd ccxt exchange_id =
     (case initialise_try ccxt exchange_id of
        Inr ex \<Rightarrow> Inr (Some ex)
      | Inl e \<Rightarrow>
          if is_Exception e then bind (wd (PrintInitError e)) (\<lambda>_. Inr None) else Inl e)"

section \<open>The sampler loop\<close>

text \<open>One observation per evaluation of the loop condition: the reading of
  \<^verbatim>\<open>datetime.now()\<close> in the condition, the reading of \<^verbatim>\<open>time.time()\<close> at the start of
  the body, how the world and the exchange answer during this iteration, and the clock
  reading stored in the snapshot. The observations are the environment; the loop ends at
  the first observation whose clock has reached the end time.\<close>

record obs =
  clock :: real
  now :: real
  world_at :: world
  exchange_at :: exchange
  snapshot_time :: real

record sampler_state =
  snapshots :: "snapshot list"
  snapshot_count :: nat
  errors :: nat
  next_target :: real
  effects :: "effect list"

definition schedule_effects :: "real \<Rightarrow> effect list" where
  "schedule_effects wait_time =
     (if wait_time > 0 then [Sleep wait_time]
      else if wait_time < - 1 then [WarnBehind (- wait_time)]
      else [])"

text \<open>The body of the loop. An exception raised by the sleep, by a \<^verbatim>\<open>print\<close> or by the
  fetch ends the function: nothing in \<^verbatim>\<open>collect_orderbook_data\<close> catches it.\<close>

definition tick :: "real \<Rightarrow> string \<Rightarrow> sampler_state \<Rightarrow> obs \<Rightarrow> exn + sampler_state" where
  "tick interval_seconds symb st ob =
     (let wait_time = next_target st - now ob
      in bind (perform_all (world_at ob) (schedule_effects wait_time)) (\<lambda>_.
         let st1 = st\<lparr>effects := effects st @ schedule_effects wait_time\<rparr>
         in bind (fetch_orderbook_snapshot (world_at ob) (exchange_at ob) (snapshot_time ob)
                    symb 20) (\<lambda>fetched_snapshot.
            bind (case fetched_snapshot of
                    Some s \<Rightarrow>
                      bind (world_at ob (LogSnapshot (snapshot_count st1 + 1))) (\<lambda>_.
                        Inr (st1\<lparr>snapshots := snapshots st1 @ [s],
                                 snapshot_count := snapshot_count st1 + 1,
                                 effects := effects st1 @ [LogSnapshot (snapshot_count st1 + 1)]\<rparr>))
                  | None \<Rightarrow>
                      bind (world_at ob (LogError (errors st1 + 1))) (\<lambda>_.
                        Inr (st1\<lparr>errors := errors st1 + 1,
                                 effects := effects st1 @ [LogError (errors st1 + 1)]\<rparr>)))
              (\<lambda>st2. Inr (st2\<lparr>next_target := next_target st2 + interval_seconds\<rparr>)))))"

text \<open>The \<^verbatim>\<open>while\<close> loop. The result is \<open>None\<close> when the observations run out before
  the clock reaches the end time, that is, when the loop is still going; it is
  \<open>Some (Inl e)\<close> when an iteration raised \<open>e\<close>.\<close>

fun sampler_loop ::
  "real \<Rightarrow> real \<Rightarrow> string \<Rightarrow> sampler_state \<Rightarrow> obs list \<Rightarrow> (exn + sampler_state) option" where
  "sampler_loop end_time interval_seconds symb st [] = None"
| "sampler_loop end_time interval_seconds symb st (ob # rest) =
     (if clock ob < end_time
      then (case tick interval_seconds symb st ob of
              Inl e \<Rightarrow> Some (Inl e)
            | Inr st' \<Rightarrow> sampler_loop end_time interval_seconds symb st' rest)
      else Some (Inr st))"



definition initial_state :: "real \<Rightarrow> sampler_state" where
  "initial_state t0 =
     \<lparr>snapshots = [], snapshot_count = 0, errors = 0, next_target = t0, effects = []\<rparr>"


section \<open>Predicates used to state the properties\<close>

text \<open>The levels that \<^verbatim>\<open>fetch_orderbook_snapshot\<close> reads on one side: the first one for
  the best price and size, the first five or ten for the depth sums when the side has that
  many. The side is readable when each of them has a price and a size.\<close>

definition read_prefix :: "level list \<Rightarrow> nat" where
  "read_prefix side = (if 10 \<le> length side then 10 else if 5 \<le> length side then 5 else 1)"

definition levels_ok :: "level list \<Rightarrow> bool" where
  "levels_ok side = list_all (\<lambda>l. 2 \<le> length l) (take (read_prefix side) side)"

definition depth5 :: "level list \<Rightarrow> fl" where
  "depth5 side = py_sum (map (\<lambda>l. l ! 1) (take 5 side))"

text \<open>The order books on which the imbalance division divides by zero: both best prices
  and both five-level depths are non-zero, and the depths cancel.\<close>

definition zero_total :: "orderbook \<Rightarrow> bool" where
  "zero_total ob =
     (ob_bids ob \<noteq> [] \<and> ob_asks ob \<noteq> [] \<and>
      hd (ob_bids ob) ! 0 \<noteq> Fin 0 \<and> hd (ob_asks ob) ! 0 \<noteq> Fin 0 \<and>
      5 \<le> length (ob_bids ob) \<and> 5 \<le> length (ob_asks ob) \<and>
      depth5 (ob_bids ob) \<noteq> Fin 0 \<and> depth5 (ob_asks ob) \<noteq> Fin 0 \<and>
      py_add (depth5 (ob_bids ob)) (depth5 (ob_asks ob)) = Fin 0)"

text \<open>The exception that the body of the \<^verbatim>\<open>try\<close> block raises, if any: the one of the
  connector call, \<^verbatim>\<open>IndexError\<close> on a level without price or size, \<^verbatim>\<open>ZeroDivisionError\<close>
  when the depths cancel. Likewise for the initialisation: \<^verbatim>\<open>AttributeError\<close> for an unknown
  exchange name, or what the constructor or \<^verbatim>\<open>load_markets\<close> raises.\<close>

definition fetch_exception :: "exchange \<Rightarrow> string \<Rightarrow> nat \<Rightarrow> exn option" where
  "fetch_exception ex symb depth =
     (case fetch_order_book ex symb depth of
        Inl e \<Rightarrow> Some e
      | Inr ob \<Rightarrow>
          if levels_ok (ob_bids ob) \<and> levels_ok (ob_asks ob)
          then (if zero_total ob then Some ZeroDivisionError else None)
          else Some IndexError)"

definition initialise_exception :: "ccxt_module \<Rightarrow> string \<Rightarrow> exn option" where
  "initialise_exception ccxt exchange_id =
     (case ccxt exchange_id of
        None \<Rightarrow> Some AttributeError
      | Some (Inl e) \<Rightarrow> Some e
      | Some (Inr ex) \<Rightarrow> (case load_markets ex of Inl e \<Rightarrow> Some e | Inr u \<Rightarrow> None))"

text \<open>What a handler does with an exception \<open>e\<close> of its \<^verbatim>\<open>try\<close> block, \<open>line\<close> being the
  line it prints.\<close>

definition handled :: "world \<Rightarrow> effect \<Rightarrow> exn \<Rightarrow> exn + 'a option" where
  "handled wd line e =
     (if is_Exception e then (case wd line of Inl e' \<Rightarrow> Inl e' | Inr u \<Rightarrow> Inr None)
      else Inl e)"

text \<open>The iterations that the loop performs on a trace, the loop body run over a list of
  observations, the fetch of one iteration, and the total time slept by a list of
  effects.\<close>

definition iterations :: "real \<Rightarrow> obs list \<Rightarrow> obs list" where
  "iterations end_time trace = takeWhile (\<lambda>ob. clock ob < end_time) trace"

fun run_ticks :: "real \<Rightarrow> string \<Rightarrow> sampler_state \<Rightarrow> obs list \<Rightarrow> exn + sampler_state" where
  "run_ticks interval_seconds symb st [] = Inr st"
| "run_ticks interval_seconds symb st (ob # rest) =
     bind (tick interval_seconds symb st ob) (\<lambda>st'. run_ticks interval_seconds symb st' rest)"

definition fetched :: "string \<Rightarrow> obs \<Rightarrow> exn + snapshot option" where
  "fetched symb ob =
     fetch_orderbook_snapshot (world_at ob) (exchange_at ob) (snapshot_time ob) symb 20"

definition captured :: "string \<Rightarrow> obs \<Rightarrow> snapshot option" where
  "captured symb ob = (case fetched symb ob of Inr (Some s) \<Rightarrow> Some s | _ \<Rightarrow> None)"

definition log_line :: "sampler_state \<Rightarrow> snapshot option \<Rightarrow> effect" where
  "log_line st r =
     (case r of Some s \<Rightarrow> LogSnapshot (snapshot_count st + 1) | None \<Rightarrow> LogError (errors st + 1))"

text \<open>The state after an iteration that completed, its fetch having returned \<open>r\<close>.\<close>

definition after_tick :: "real \<Rightarrow> sampler_state \<Rightarrow> obs \<Rightarrow> snapshot option \<Rightarrow> sampler_state" where
  "after_tick interval_seconds st ob r =
     st\<lparr>snapshots := snapshots st @ (case r of Some s \<Rightarrow> [s] | None \<Rightarrow> []),
        snapshot_count := snapshot_count st + (case r of Some s \<Rightarrow> 1 | None \<Rightarrow> 0),
        errors := errors st + (case r of Some s \<Rightarrow> 0 | None \<Rightarrow> 1),
        next_target := next_target st + interval_seconds,
        effects := effects st @ schedule_effects (next_target st - now ob) @ [log_line st r]\<rparr>"

fun sleep_total :: "effect list \<Rightarrow> real" where
  "sleep_total [] = 0"
| "sleep_total (Sleep d # es) = d + sleep_total es"
| "sleep_total (_ # es) = sleep_total es"

fun is_warning :: "effect \<Rightarrow> bool" where
  "is_warning (WarnBehind b) = True"
| "is_warning _ = False"

text \<open>The snapshot that the dict literal of \<^verbatim>\<open>fetch_orderbook_snapshot\<close> builds from a
  readable order book, before the derived metrics are added.\<close>

definition top_of :: "level list \<Rightarrow> nat \<Rightarrow> fl option" where
  "top_of side i = (case side of [] \<Rightarrow> None | l # _ \<Rightarrow> Some (l ! i))"

definition depth_of :: "level list \<Rightarrow> nat \<Rightarrow> fl option" where
  "depth_of side n =
     (if n \<le> length side then Some (py_sum (map (\<lambda>l. l ! 1) (take n side))) else None)"

definition base_snapshot :: "orderbook \<Rightarrow> real \<Rightarrow> string \<Rightarrow> nat \<Rightarrow> snapshot" where
  "base_snapshot ob tm symb depth =
     \<lparr>timestamp = py_int (tm * 1000), datetime = tm, symbol = symb,
      best_bid = top_of (ob_bids ob) 0, best_ask = top_of (ob_asks ob) 0,
      best_bid_size = top_of (ob_bids ob) 1, best_ask_size = top_of (ob_asks ob) 1,
      bid_depth_5 = depth_of (ob_bids ob) 5, ask_depth_5 = depth_of (ob_asks ob) 5,
      bid_depth_10 = depth_of (ob_bids ob) 10, ask_depth_10 = depth_of (ob_asks ob) 10,
      spread = None, spread_bps = None, mid_price = None, imbalance_5 = None,
      bids = take depth (ob_bids ob), asks = take depth (ob_asks ob)\<rparr>"

text \<open>The correlation dict built by the first loop of \<^verbatim>\<open>test_imbalance_hypothesis\<close> and the
  key that \<^verbatim>\<open>max(correlations, key=correlations.get)\<close> selects from a non-empty dict.\<close>

definition horizon_correlations :: "series \<Rightarrow> series \<Rightarrow> int list \<Rightarrow> (int \<times> fl) list" where
  "horizon_correlations p imb horizons =
     fold (\<lambda>h acc. AList.update h (corr imb (forward_returns p h)) acc) horizons []"

definition python_best :: "(int \<times> fl) list \<Rightarrow> int" where
  "python_best cs = max_from (dict_get cs) (hd (map fst cs)) (tl (map fst cs))"

text \<open>The rows of a frame at the positions \<open>idx\<close>. The rows that one pass of the threshold
  loop keeps: strong imbalance and no NaN in any column. The rows that have strong
  imbalance and a defined imbalance and return, whatever the other columns hold. The number
  of rows among \<open>rows\<close> on which the signs of imbalance and return agree.\<close>

definition take_rows :: "frame \<Rightarrow> nat list \<Rightarrow> frame" where
  "take_rows df idx =
     \<lparr>nrows = length idx, cols = map (\<lambda>(c, xs). (c, map (cell xs) idx)) (cols df)\<rparr>"

definition kept_rows :: "frame \<Rightarrow> series \<Rightarrow> real \<Rightarrow> nat list" where
  "kept_rows df imb threshold =
     filter (\<lambda>t. fgt (fabs (cell imb t)) (Fin threshold) \<and> row_complete df t) [0..<nrows df]"

definition defined_rows :: "nat \<Rightarrow> series \<Rightarrow> series \<Rightarrow> real \<Rightarrow> nat list" where
  "defined_rows n imb ret threshold =
     filter (\<lambda>t. fgt (fabs (cell imb t)) (Fin threshold) \<and> cell imb t \<noteq> NaN \<and> cell ret t \<noteq> NaN)
       [0..<n]"

definition hits :: "series \<Rightarrow> series \<Rightarrow> nat list \<Rightarrow> nat" where
  "hits imb ret rows =
     length (filter (\<lambda>t. feq (np_sign (cell imb t)) (np_sign (cell ret t))) rows)"

section \<open>Concrete inputs\<close>

text \<open>Order books and exchanges on which the functions are evaluated below: a regular
  five-level book, a book whose ask side carries a negative size, a book whose best bid
  has no size entry, a book whose sizes are finite and whose depth sums overflow, an
  exchange that serves a fixed book, one that always fails, and one whose request is
  interrupted from the keyboard.\<close>

definition example_book :: orderbook where
  "example_book =
     \<lparr>ob_bids = [[Fin 100, Fin 3], [Fin 99, Fin 1], [Fin 98, Fin 1], [Fin 97, Fin 1], [Fin 96, Fin 1]],
      ob_asks = [[Fin 101, Fin 1], [Fin 102, Fin 1], [Fin 103, Fin 1], [Fin 104, Fin 0], [Fin 105, Fin 0]]\<rparr>"

definition skewed_book :: orderbook where
  "skewed_book =
     \<lparr>ob_bids = [[Fin 100, Fin 3], [Fin 99, Fin 0], [Fin 98, Fin 0], [Fin 97, Fin 0], [Fin 96, Fin 0]],
      ob_asks = [[Fin 101, Fin (- 1)], [Fin 102, Fin 0], [Fin 103, Fin 0], [Fin 104, Fin 0], [Fin 105, Fin 0]]\<rparr>"

definition ragged_book :: orderbook where
  "ragged_book = \<lparr>ob_bids = [[Fin 100]], ob_asks = [[Fin 101, Fin 1]]\<rparr>"

definition huge_book :: orderbook where
  "huge_book =
     \<lparr>ob_bids = [[Fin 100, Fin (10 ^ 308)], [Fin 99, Fin (10 ^ 308)], [Fin 98, Fin (10 ^ 308)],
                 [Fin 97, Fin (10 ^ 308)], [Fin 96, Fin (10 ^ 308)]],
      ob_asks = [[Fin 101, Fin (10 ^ 308)], [Fin 102, Fin (10 ^ 308)], [Fin 103, Fin (10 ^ 308)],
                 [Fin 104, Fin (10 ^ 308)], [Fin 105, Fin (10 ^ 308)]]\<rparr>"

definition serving :: "orderbook \<Rightarrow> exchange" where
  "serving ob = \<lparr>fetch_order_book = (\<lambda>symb depth. Inr ob), load_markets = Inr (),
                 enableRateLimit = False\<rparr>"

definition unreachable :: exchange where
  "unreachable = \<lparr>fetch_order_book = (\<lambda>symb depth. Inl ConnectorError),
                  load_markets = Inl ConnectorError, enableRateLimit = False\<rparr>"

definition interrupted :: exchange where
  "interrupted = \<lparr>fetch_order_book = (\<lambda>symb depth. Inl KeyboardInterrupt),
                  load_markets = Inl KeyboardInterrupt, enableRateLimit = False\<rparr>"

text \<open>Worlds: one in which every call returns, one in which every call raises
  \<^verbatim>\<open>OSError\<close> (a closed output stream), and one in which only the CSV file cannot be
  written (no \<^verbatim>\<open>data\<close> directory).\<close>

definition quiet :: world where
  "quiet = (\<lambda>e. Inr ())"

definition broken_pipe :: world where
  "broken_pipe = (\<lambda>e. Inl OSError)"


definition example_snapshot :: snapshot where
  "example_snapshot =
     \<lparr>timestamp = 0, datetime = 0, symbol = ''BTC/USDT'',
      best_bid = Some (Fin 100), best_ask = Some (Fin 101),
      best_bid_size = Some (Fin 3), best_ask_size = Some (Fin 1),
      bid_depth_5 = Some (Fin 7), ask_depth_5 = Some (Fin 3),
      bid_depth_10 = None, ask_depth_10 = None,
      spread = Some (Fin 1), spread_bps = Some (Fin 100), mid_price = Some (Fin (201 / 2)),
      imbalance_5 = Some (Fin (2 / 5)),
      bids = ob_bids example_book, asks = ob_asks example_book\<rparr>"

text \<open>Observations of the sampler loop: an iteration whose fetch fails, one whose fetch
  succeeds, the reading that ends a one-minute run, an iteration that starts two
  seconds after its target, and an iteration whose fetch is interrupted.\<close>

definition failing_obs :: obs where
  "failing_obs = \<lparr>clock = 0, now = 0, world_at = quiet, exchange_at = unreachable,
                  snapshot_time = 0\<rparr>"

definition good_obs :: obs where
  "good_obs = \<lparr>clock = 10, now = 10, world_at = quiet, exchange_at = serving example_book,
               snapshot_time = 0\<rparr>"

definition final_obs :: obs where
  "final_obs = \<lparr>clock = 60, now = 60, world_at = quiet, exchange_at = unreachable,
                snapshot_time = 60\<rparr>"

definition late_obs :: obs where
  "late_obs = \<lparr>clock = 2, now = 2, world_at = quiet, exchange_at = unreachable,
               snapshot_time = 2\<rparr>"

definition interrupted_obs :: obs where
  "interrupted_obs = \<lparr>clock = 20, now = 20, world_at = quiet, exchange_at = interrupted,
                      snapshot_time = 20\<rparr>"

text \<open>Frames on which the analysis functions are evaluated below.\<close>

definition flat_frame :: frame where
  "flat_frame = \<lparr>nrows = 3, cols = [(''mid_price'', [Fin 2, Fin 2, Fin 2])]\<rparr>"

definition short_frame :: frame where
  "short_frame = \<lparr>nrows = 3, cols = [(''mid_price'', [Fin 1, Fin 2, Fin 2])]\<rparr>"

definition rising_frame :: frame where
  "rising_frame =
     \<lparr>nrows = 3,
      cols = [(''mid_price'', [Fin 1, Fin 2, Fin 8]), (''imbalance_5'', [Fin (- 1), Fin 1, Fin 1])]\<rparr>"

definition undefined_frame :: frame where
  "undefined_frame =
     \<lparr>nrows = 2, cols = [(''mid_price'', [NaN, NaN]), (''imbalance_5'', [NaN, NaN])]\<rparr>"

definition gappy_frame :: frame where
  "gappy_frame =
     \<lparr>nrows = 3,
      cols = [(''mid_price'', [Fin 1, Fin 2, Fin 8]), (''imbalance_5'', [Fin (9 / 10), Fin (9 / 10), Fin (9 / 10)]),
              (''spread'', [NaN, NaN, NaN])]\<rparr>"

section \<open>Auxiliary facts\<close>

subsection \<open>Reading an order book\<close>

lemma bind_Inr_iff: "bind m f = Inr y \<longleftrightarrow> (\<exists>x. m = Inr x \<and> f x = Inr y)"
  by (cases m) (auto simp: bind_def)

lemma bind_Inl_iff: "bind m f = Inl e \<longleftrightarrow> m = Inl e \<or> (\<exists>x. m = Inr x \<and> f x = Inl e)"
  by (cases m) (auto simp: bind_def)

lemma bind_Inr [simp]: "bind (Inr x) f = f x"
  by (simp add: bind_def)

lemma bind_Inl [simp]: "bind (Inl e) f = Inl e"
  by (simp add: bind_def)

lemma isl_bind: "isl (bind m f) \<longleftrightarrow> isl m \<or> isl (f (projr m))"
  by (cases m) auto

lemma overflow_threshold_gt: "1 < overflow_threshold"
  by (simp add: overflow_threshold_def)

lemma overflow_Fin_iff:
  "overflow v = Fin x \<longleftrightarrow> v = Fin x \<and> - overflow_threshold < x \<and> x < overflow_threshold"
  by (cases v) auto

lemma overflow_small: "\<bar>x\<bar> \<le> 10 ^ 300 \<Longrightarrow> overflow (Fin x) = Fin x"
proof -
  assume a: "\<bar>x\<bar> \<le> 10 ^ 300"
  have "(10::real) ^ 300 < overflow_threshold" by (simp add: overflow_threshold_def)
  with a have "x < overflow_threshold" "- overflow_threshold < x" by linarith+
  then show ?thesis by simp
qed

lemma py_sum_snoc: "py_sum (xs @ [x]) = py_add (py_sum xs) x"
  by (simp add: py_sum_def)

lemma py_sum_normal:
  assumes "xs \<noteq> []" "py_sum xs = Fin b"
  shows "- overflow_threshold < b \<and> b < overflow_threshold"
proof -
  from assms(1) obtain ys y where "xs = ys @ [y]" by (cases xs rule: rev_cases) auto
  with assms(2) have "overflow (fadd (py_sum ys) y) = Fin b"
    by (simp add: py_sum_snoc py_add_def)
  then show ?thesis by (simp add: overflow_Fin_iff)
qed

lemma sizes_ok: "list_all (\<lambda>l. 2 \<le> length l) ls \<Longrightarrow> sizes ls = Inr (map (\<lambda>l. l ! 1) ls)"
  by (induction ls) (auto simp: item_def)

lemma sizes_bad: "\<not> list_all (\<lambda>l. 2 \<le> length l) ls \<Longrightarrow> sizes ls = Inl IndexError"
proof (induction ls)
  case Nil
  then show ?case by simp
next
  case (Cons l ls)
  show ?case
  proof (cases "2 \<le> length l")
    case True
    with Cons show ?thesis by (simp add: item_def)
  next
    case False
    then show ?thesis by (simp add: item_def)
  qed
qed

lemma sizes_Inl: "sizes ls = Inl e \<Longrightarrow> e = IndexError"
  using sizes_ok [of ls] sizes_bad [of ls] by (cases "list_all (\<lambda>l. 2 \<le> length l) ls") auto

lemma top_field_Inl: "top_field side i = Inl e \<Longrightarrow> e = IndexError"
  by (cases side) (auto simp: top_field_def item_def bind_Inl_iff split: if_splits)

lemma depth_sum_Inl: "depth_sum side n = Inl e \<Longrightarrow> e = IndexError"
  by (auto simp: depth_sum_def bind_Inl_iff split: if_splits dest: sizes_Inl)

lemma list_all_take_le:
  "list_all P (take n xs) \<Longrightarrow> m \<le> n \<Longrightarrow> list_all P (take m xs)"
  by (metis list_all_append min.absorb1 take_add take_take le_iff_add)

lemma top_field_ok: "levels_ok side \<Longrightarrow> i < 2 \<Longrightarrow> top_field side i = Inr (top_of side i)"
  by (cases side)
     (auto simp: levels_ok_def read_prefix_def top_field_def top_of_def item_def split: if_splits)

lemma depth_sum_5_ok: "levels_ok side \<Longrightarrow> depth_sum side 5 = Inr (depth_of side 5)"
  using list_all_take_le [of "\<lambda>l. 2 \<le> length l" 10 side 5]
  by (auto simp: levels_ok_def read_prefix_def depth_sum_def depth_of_def sizes_ok
      split: if_splits)

lemma depth_sum_10_ok: "levels_ok side \<Longrightarrow> depth_sum side 10 = Inr (depth_of side 10)"
  by (auto simp: levels_ok_def read_prefix_def depth_sum_def depth_of_def sizes_ok
      split: if_splits)

lemma side_bad:
  assumes "\<not> levels_ok side"
  shows "isl (top_field side 0) \<or> isl (top_field side 1)
         \<or> isl (depth_sum side 5) \<or> isl (depth_sum side 10)"
proof (cases "10 \<le> length side")
  case True
  with assms show ?thesis
    by (simp add: levels_ok_def read_prefix_def depth_sum_def sizes_bad)
next
  case False
  show ?thesis
  proof (cases "5 \<le> length side")
    case True
    with False assms show ?thesis
      by (simp add: levels_ok_def read_prefix_def depth_sum_def sizes_bad)
  next
    case f5: False
    with False assms show ?thesis
      by (cases side) (auto simp: levels_ok_def read_prefix_def top_field_def item_def)
  qed
qed

lemma fetch_try_readable:
  assumes "fetch_order_book ex symb depth = Inr ob" "levels_ok (ob_bids ob)" "levels_ok (ob_asks ob)"
  shows "fetch_try ex t symb depth = derived_metrics (base_snapshot ob t symb depth)"
  using assms
  by (simp add: fetch_try_def top_field_ok depth_sum_5_ok depth_sum_10_ok base_snapshot_def)

lemma fetch_try_unreadable:
  assumes c: "fetch_order_book ex symb depth = Inr ob"
    and bad: "\<not> levels_ok (ob_bids ob) \<or> \<not> levels_ok (ob_asks ob)"
  shows "fetch_try ex t symb depth = Inl IndexError"
proof -
  from bad side_bad [of "ob_bids ob"] side_bad [of "ob_asks ob"]
  have some: "isl (top_field (ob_bids ob) 0) \<or> isl (top_field (ob_asks ob) 0)
      \<or> isl (top_field (ob_bids ob) 1) \<or> isl (top_field (ob_asks ob) 1)
      \<or> isl (depth_sum (ob_bids ob) 5) \<or> isl (depth_sum (ob_asks ob) 5)
      \<or> isl (depth_sum (ob_bids ob) 10) \<or> isl (depth_sum (ob_asks ob) 10)"
    by auto
  have t: "top_field side i = Inl IndexError \<or> \<not> isl (top_field side i)" for side i
    using top_field_Inl [of side i] by (cases "top_field side i") auto
  have d: "depth_sum side n = Inl IndexError \<or> \<not> isl (depth_sum side n)" for side n
    using depth_sum_Inl [of side n] by (cases "depth_sum side n") auto
  show ?thesis
  proof (cases "top_field (ob_bids ob) 0")
    case (Inl e)
    with t [of "ob_bids ob" 0] c show ?thesis by (simp add: fetch_try_def)
  next
    case r1: (Inr v1)
    show ?thesis
    proof (cases "top_field (ob_asks ob) 0")
      case (Inl e)
      with t [of "ob_asks ob" 0] c r1 show ?thesis by (simp add: fetch_try_def)
    next
      case r2: (Inr v2)
      show ?thesis
      proof (cases "top_field (ob_bids ob) 1")
        case (Inl e)
        with t [of "ob_bids ob" 1] c r1 r2 show ?thesis by (simp add: fetch_try_def)
      next
        case r3: (Inr v3)
        show ?thesis
        proof (cases "top_field (ob_asks ob) 1")
          case (Inl e)
          with t [of "ob_asks ob" 1] c r1 r2 r3 show ?thesis by (simp add: fetch_try_def)
        next
          case r4: (Inr v4)
          show ?thesis
          proof (cases "depth_sum (ob_bids ob) 5")
            case (Inl e)
            with d [of "ob_bids ob" 5] c r1 r2 r3 r4 show ?thesis by (simp add: fetch_try_def)
          next
            case r5: (Inr v5)
            show ?thesis
            proof (cases "depth_sum (ob_asks ob) 5")
              case (Inl e)
              with d [of "ob_asks ob" 5] c r1 r2 r3 r4 r5 show ?thesis
                by (simp add: fetch_try_def)
            next
              case r6: (Inr v6)
              show ?thesis
              proof (cases "depth_sum (ob_bids ob) 10")
                case (Inl e)
                with d [of "ob_bids ob" 10] c r1 r2 r3 r4 r5 r6 show ?thesis
                  by (simp add: fetch_try_def)
              next
                case r7: (Inr v7)
                show ?thesis
                proof (cases "depth_sum (ob_asks ob) 10")
                  case (Inl e)
                  with d [of "ob_asks ob" 10] c r1 r2 r3 r4 r5 r6 r7 show ?thesis
                    by (simp add: fetch_try_def)
                next
                  case r8: (Inr v8)
                  with some r1 r2 r3 r4 r5 r6 r7 show ?thesis by simp
                qed
              qed
            qed
          qed
        qed
      qed
    qed
  qed
qed

lemma py_div_Inl_iff: "py_div a b = Inl e \<longleftrightarrow> b = Fin 0 \<and> e = ZeroDivisionError"
  by (auto simp: py_div_def)

lemma derived_metrics_Inl_iff:
  "derived_metrics s = Inl e \<longleftrightarrow>
     e = ZeroDivisionError
     \<and> truthy (best_bid s) \<and> truthy (best_ask s) \<and> truthy (bid_depth_5 s) \<and> truthy (ask_depth_5 s)
     \<and> py_add (the (bid_depth_5 s)) (the (ask_depth_5 s)) = Fin 0"
  by (auto simp: derived_metrics_def Let_def bind_Inl_iff py_div_def truthy_def
      split: option.splits)

lemma zero_total_base:
  "zero_total ob \<longleftrightarrow> derived_metrics (base_snapshot ob t symb depth) = Inl ZeroDivisionError"
  by (auto simp: derived_metrics_Inl_iff base_snapshot_def zero_total_def truthy_def top_of_def
      depth_of_def depth5_def split: list.splits option.splits if_splits)

lemma fetch_try_Inl_iff:
  "fetch_try ex t symb depth = Inl e \<longleftrightarrow> fetch_exception ex symb depth = Some e"
proof (cases "fetch_order_book ex symb depth")
  case (Inl e0)
  then show ?thesis by (auto simp: fetch_try_def fetch_exception_def)
next
  case (Inr ob)
  show ?thesis
  proof (cases "levels_ok (ob_bids ob) \<and> levels_ok (ob_asks ob)")
    case True
    with Inr fetch_try_readable [OF Inr, of t] zero_total_base [of ob t symb depth]
    show ?thesis
      by (auto simp: fetch_exception_def derived_metrics_Inl_iff)
  next
    case False
    with fetch_try_unreadable [OF Inr, of t] Inr show ?thesis
      by (auto simp: fetch_exception_def)
  qed
qed

lemma fetch_try_Inr_iff:
  "fetch_try ex t symb depth = Inr sn \<longleftrightarrow>
     fetch_exception ex symb depth = None
     \<and> (\<exists>ob. fetch_order_book ex symb depth = Inr ob
             \<and> derived_metrics (base_snapshot ob t symb depth) = Inr sn)"
proof (cases "fetch_order_book ex symb depth")
  case (Inl e0)
  then show ?thesis by (auto simp: fetch_try_def fetch_exception_def)
next
  case (Inr ob)
  show ?thesis
  proof (cases "levels_ok (ob_bids ob) \<and> levels_ok (ob_asks ob)")
    case True
    with Inr fetch_try_readable [OF Inr, of t] zero_total_base [of ob t symb depth]
    show ?thesis
      by (auto simp: fetch_exception_def)
  next
    case False
    with fetch_try_unreadable [OF Inr, of t] Inr show ?thesis
      by (auto simp: fetch_exception_def)
  qed
qed

lemma fetch_Inr_Some_iff:
  "fetch_orderbook_snapshot wd ex t symb depth = Inr (Some sn) \<longleftrightarrow> fetch_try ex t symb depth = Inr sn"
  by (auto simp: fetch_orderbook_snapshot_def bind_Inr_iff split: sum.splits if_splits)

lemma fetch_exception_cases:
  "fetch_orderbook_snapshot wd ex t symb depth =
     (case fetch_exception ex symb depth of
        None \<Rightarrow> Inr (Some (projr (fetch_try ex t symb depth)))
      | Some e \<Rightarrow> handled wd (PrintFetchError e) e)"
proof (cases "fetch_try ex t symb depth")
  case (Inl e)
  then have "fetch_exception ex symb depth = Some e" by (simp add: fetch_try_Inl_iff)
  with Inl show ?thesis
    by (simp add: fetch_orderbook_snapshot_def handled_def bind_def split: sum.splits)
next
  case (Inr sn)
  then have "fetch_exception ex symb depth = None" by (simp add: fetch_try_Inr_iff)
  with Inr show ?thesis by (simp add: fetch_orderbook_snapshot_def)
qed

lemma initialise_try_Inl_iff:
  "initialise_try ccxt eid = Inl e \<longleftrightarrow> initialise_exception ccxt eid = Some e"
  by (auto simp: initialise_try_def initialise_exception_def bind_def
      split: option.splits sum.splits)

lemma initialise_try_Inr_iff:
  "initialise_try ccxt eid = Inr ex' \<longleftrightarrow>
     (\<exists>ex0. ccxt eid = Some (Inr ex0) \<and> load_markets ex0 = Inr ()
            \<and> ex' = ex0\<lparr>enableRateLimit := True\<rparr>)"
  by (auto simp: initialise_try_def bind_def split: option.splits sum.splits)

lemma initialise_exception_cases:
  "initialise_exchange wd ccxt eid =
     (case initialise_exception ccxt eid of
        None \<Rightarrow> Inr (Some (projr (initialise_try ccxt eid)))
      | Some e \<Rightarrow> handled wd (PrintInitError e) e)"
proof (cases "initialise_try ccxt eid")
  case (Inl e)
  then have "initialise_exception ccxt eid = Some e" by (simp add: initialise_try_Inl_iff)
  with Inl show ?thesis
    by (simp add: initialise_exchange_def handled_def bind_def split: sum.splits)
next
  case (Inr ex')
  then have "initialise_exception ccxt eid = None"
    using initialise_try_Inl_iff [of ccxt eid] by (cases "initialise_exception ccxt eid") auto
  with Inr show ?thesis by (simp add: initialise_exchange_def)
qed

lemma derived_metrics_fields:
  assumes "derived_metrics s = Inr s'"
    and "spread s = None" "spread_bps s = None" "mid_price s = None" "imbalance_5 s = None"
  shows "best_bid s' = best_bid s" and "best_ask s' = best_ask s"
    and "bid_depth_5 s' = bid_depth_5 s" and "ask_depth_5 s' = ask_depth_5 s"
    and "spread s' = (if truthy (best_bid s) \<and> truthy (best_ask s)
                      then Some (py_sub (the (best_ask s)) (the (best_bid s))) else None)"
    and "spread_bps s' = (if truthy (best_bid s) \<and> truthy (best_ask s)
                      then Some (py_mul (py_quotient (py_sub (the (best_ask s)) (the (best_bid s)))
                                           (the (best_bid s))) (Fin 10000))
                      else None)"
    and "mid_price s' = (if truthy (best_bid s) \<and> truthy (best_ask s)
                      then Some (py_quotient (py_add (the (best_bid s)) (the (best_ask s))) (Fin 2))
                      else None)"
    and "imbalance_5 s' = (if truthy (best_bid s) \<and> truthy (best_ask s)
                               \<and> truthy (bid_depth_5 s) \<and> truthy (ask_depth_5 s)
                      then Some (py_quotient (py_sub (the (bid_depth_5 s)) (the (ask_depth_5 s)))
                                    (py_add (the (bid_depth_5 s)) (the (ask_depth_5 s))))
                      else None)"
    and "truthy (best_bid s) \<and> truthy (best_ask s)
            \<and> truthy (bid_depth_5 s) \<and> truthy (ask_depth_5 s)
          \<longrightarrow> py_add (the (bid_depth_5 s)) (the (ask_depth_5 s)) \<noteq> Fin 0"
  using assms
  by (auto simp: derived_metrics_def Let_def py_div_def bind_def split: if_splits sum.splits)

lemma ratio_bounds:
  fixes b a :: real
  assumes "0 \<le> b" "0 \<le> a" "b + a \<noteq> 0"
  shows "- 1 \<le> (b - a) / (b + a) \<and> (b - a) / (b + a) \<le> 1"
proof -
  from assms have pos: "0 < b + a" by linarith
  have "- (b + a) \<le> b - a" "b - a \<le> b + a" using assms by linarith+
  with pos show ?thesis by (simp add: pos_le_divide_eq pos_divide_le_eq)
qed

lemma imbalance_bound:
  assumes b: "0 \<le> b" "b < overflow_threshold" and a: "0 \<le> a" "a < overflow_threshold"
    and nz: "py_add (Fin b) (Fin a) \<noteq> Fin 0"
  shows "\<exists>v. py_quotient (py_sub (Fin b) (Fin a)) (py_add (Fin b) (Fin a)) = Fin v
             \<and> - 1 \<le> v \<and> v \<le> 1"
proof -
  note T = overflow_threshold_gt
  from b a T have d: "py_sub (Fin b) (Fin a) = Fin (b - a)"
    by (simp add: py_sub_def fsub_def)
  show ?thesis
  proof (cases "overflow_threshold \<le> b + a")
    case True
    then have "py_add (Fin b) (Fin a) = PInf" by (simp add: py_add_def)
    with d T have "py_quotient (py_sub (Fin b) (Fin a)) (py_add (Fin b) (Fin a)) = Fin 0"
      by (simp add: py_quotient_def)
    then show ?thesis by simp
  next
    case False
    with b a T have s: "py_add (Fin b) (Fin a) = Fin (b + a)" by (simp add: py_add_def)
    with nz have n0: "b + a \<noteq> 0" by simp
    from ratio_bounds [OF b(1) a(1) n0] T
    have "overflow (Fin ((b - a) / (b + a))) = Fin ((b - a) / (b + a))" by simp
    with d s n0 have "py_quotient (py_sub (Fin b) (Fin a)) (py_add (Fin b) (Fin a))
        = Fin ((b - a) / (b + a))"
      by (simp add: py_quotient_def)
    with ratio_bounds [OF b(1) a(1) n0] show ?thesis by simp
  qed
qed

lemma depth_of_normal:
  assumes "depth_of side 5 = Some (Fin b)"
  shows "- overflow_threshold < b \<and> b < overflow_threshold"
proof -
  from assms have l: "5 \<le> length side" and s: "py_sum (map (\<lambda>l. l ! 1) (take 5 side)) = Fin b"
    by (auto simp: depth_of_def split: if_splits)
  from l have "map (\<lambda>l. l ! 1) (take 5 side) \<noteq> []" by auto
  from py_sum_normal [OF this s] show ?thesis .
qed

lemmas fetch_eval = fetch_orderbook_snapshot_def fetch_try_def top_field_def depth_sum_def
  item_def derived_metrics_def truthy_def py_div_def py_quotient_def py_int_def Let_def bind_def
  serving_def py_sum_def py_add_def py_sub_def py_mul_def fsub_def overflow_threshold_def

lemma example_fetch:
  "fetch_orderbook_snapshot wd (serving example_book) 0 ''BTC/USDT'' 20 = Inr (Some example_snapshot)"
  by (simp add: fetch_eval example_book_def example_snapshot_def)

lemma fetch_exception_unreachable: "fetch_exception unreachable symb depth = Some ConnectorError"
  by (simp add: fetch_exception_def unreachable_def)

lemma fetch_exception_interrupted: "fetch_exception interrupted symb depth = Some KeyboardInterrupt"
  by (simp add: fetch_exception_def interrupted_def)

lemma fetch_exception_ragged: "fetch_exception (serving ragged_book) symb depth = Some IndexError"
  by (simp add: fetch_exception_def serving_def ragged_book_def levels_ok_def read_prefix_def)

subsection \<open>Exceptions inside the fetch and the initialisation\<close>

text \<open>
  Claim C9, as the code has it. \<^verbatim>\<open>fetch_orderbook_snapshot\<close> returns a snapshot when the
  body of its \<^verbatim>\<open>try\<close> block raises nothing. The body raises when the connector call
  raises, when a level that is read lacks its price or size entry (\<^verbatim>\<open>IndexError\<close>), or when
  the imbalance division has a zero divisor (\<^verbatim>\<open>ZeroDivisionError\<close>). An exception that
  derives from \<^verbatim>\<open>Exception\<close> is caught and the result is \<^verbatim>\<open>None\<close>, provided the \<^verbatim>\<open>print\<close> of
  the handler returns; what that \<^verbatim>\<open>print\<close> raises reaches the caller. An exception that
  does not derive from \<^verbatim>\<open>Exception\<close> (\<^verbatim>\<open>KeyboardInterrupt\<close>, \<^verbatim>\<open>SystemExit\<close>) is not caught
  and reaches the caller. \<^verbatim>\<open>initialise_exchange\<close> behaves in the same way on what the
  attribute lookup, the constructor or \<^verbatim>\<open>load_markets\<close> raises, and otherwise returns the
  exchange with rate limiting switched on.
\<close>

theorem fetch_orderbook_snapshot_catches_Exception:
  "(fetch_exception ex symb depth = None \<longrightarrow>
      (\<exists>ob sn. fetch_order_book ex symb depth = Inr ob
               \<and> derived_metrics (base_snapshot ob t symb depth) = Inr sn
               \<and> fetch_orderbook_snapshot wd ex t symb depth = Inr (Some sn)))
   \<and> (\<forall>e. fetch_exception ex symb depth = Some e \<and> is_Exception e
            \<and> wd (PrintFetchError e) = Inr ()
          \<longrightarrow> fetch_orderbook_snapshot wd ex t symb depth = Inr None)
   \<and> (\<forall>e e'. fetch_exception ex symb depth = Some e \<and> is_Exception e
            \<and> wd (PrintFetchError e) = Inl e'
          \<longrightarrow> fetch_orderbook_snapshot wd ex t symb depth = Inl e')
   \<and> (\<forall>e. fetch_exception ex symb depth = Some e \<and> \<not> is_Exception e
          \<longrightarrow> fetch_orderbook_snapshot wd ex t symb depth = Inl e)
   \<and> (initialise_exception ccxt eid = None \<longrightarrow>
      (\<exists>ex0. ccxt eid = Some (Inr ex0) \<and> load_markets ex0 = Inr ()
             \<and> initialise_exchange wd ccxt eid = Inr (Some (ex0\<lparr>enableRateLimit := True\<rparr>))))
   \<and> (\<forall>e. initialise_exception ccxt eid = Some e \<and> is_Exception e
            \<and> wd (PrintInitError e) = Inr ()
          \<longrightarrow> initialise_exchange wd ccxt eid = Inr None)
   \<and> (\<forall>e e'. initialise_exception ccxt eid = Some e \<and> is_Exception e
            \<and> wd (PrintInitError e) = Inl e'
          \<longrightarrow> initialise_exchange wd ccxt eid = Inl e')
   \<and> (\<forall>e. initialise_exception ccxt eid = Some e \<and> \<not> is_Exception e
          \<longrightarrow> initialise_exchange wd ccxt eid = Inl e)"
proof -
  note f = fetch_exception_cases [of wd ex t symb depth]
  note i = initialise_exception_cases [of wd ccxt eid]
  have 1: "fetch_exception ex symb depth = None \<longrightarrow>
      (\<exists>ob sn. fetch_order_book ex symb depth = Inr ob
               \<and> derived_metrics (base_snapshot ob t symb depth) = Inr sn
               \<and> fetch_orderbook_snapshot wd ex t symb depth = Inr (Some sn))"
  proof
    assume n: "fetch_exception ex symb depth = None"
    then have "\<not> isl (fetch_try ex t symb depth)"
      using fetch_try_Inl_iff [of ex t symb depth] by (cases "fetch_try ex t symb depth") auto
    then obtain sn where s: "fetch_try ex t symb depth = Inr sn"
      by (cases "fetch_try ex t symb depth") auto
    with fetch_try_Inr_iff [of ex t symb depth sn] obtain ob where
      "fetch_order_book ex symb depth = Inr ob"
      "derived_metrics (base_snapshot ob t symb depth) = Inr sn" by blast
    moreover from s have "fetch_orderbook_snapshot wd ex t symb depth = Inr (Some sn)"
      by (simp add: fetch_Inr_Some_iff)
    ultimately show "\<exists>ob sn. fetch_order_book ex symb depth = Inr ob
               \<and> derived_metrics (base_snapshot ob t symb depth) = Inr sn
               \<and> fetch_orderbook_snapshot wd ex t symb depth = Inr (Some sn)" by blast
  qed
  have 2: "\<forall>e. fetch_exception ex symb depth = Some e \<and> is_Exception e
            \<and> wd (PrintFetchError e) = Inr ()
          \<longrightarrow> fetch_orderbook_snapshot wd ex t symb depth = Inr None"
    using f by (auto simp: handled_def)
  have 3: "\<forall>e e'. fetch_exception ex symb depth = Some e \<and> is_Exception e
            \<and> wd (PrintFetchError e) = Inl e'
          \<longrightarrow> fetch_orderbook_snapshot wd ex t symb depth = Inl e'"
    using f by (auto simp: handled_def)
  have 4: "\<forall>e. fetch_exception ex symb depth = Some e \<and> \<not> is_Exception e
          \<longrightarrow> fetch_orderbook_snapshot wd ex t symb depth = Inl e"
    using f by (auto simp: handled_def)
  have 5: "initialise_exception ccxt eid = None \<longrightarrow>
      (\<exists>ex0. ccxt eid = Some (Inr ex0) \<and> load_markets ex0 = Inr ()
             \<and> initialise_exchange wd ccxt eid = Inr (Some (ex0\<lparr>enableRateLimit := True\<rparr>)))"
  proof
    assume n: "initialise_exception ccxt eid = None"
    then have "\<not> isl (initialise_try ccxt eid)"
      using initialise_try_Inl_iff [of ccxt eid] by (cases "initialise_try ccxt eid") auto
    then obtain ex' where s: "initialise_try ccxt eid = Inr ex'"
      by (cases "initialise_try ccxt eid") auto
    with initialise_try_Inr_iff [of ccxt eid ex'] obtain ex0 where
      "ccxt eid = Some (Inr ex0)" "load_markets ex0 = Inr ()"
      "ex' = ex0\<lparr>enableRateLimit := True\<rparr>" by blast
    moreover from s have "initialise_exchange wd ccxt eid = Inr (Some ex')"
      by (simp add: initialise_exchange_def)
    ultimately show "\<exists>ex0. ccxt eid = Some (Inr ex0) \<and> load_markets ex0 = Inr ()
             \<and> initialise_exchange wd ccxt eid = Inr (Some (ex0\<lparr>enableRateLimit := True\<rparr>))"
      by blast
  qed
  have 6: "\<forall>e. initialise_exception ccxt eid = Some e \<and> is_Exception e
            \<and> wd (PrintInitError e) = Inr ()
          \<longrightarrow> initialise_exchange wd ccxt eid = Inr None"
    using i by (auto simp: handled_def)
  have 7: "\<forall>e e'. initialise_exception ccxt eid = Some e \<and> is_Exception e
            \<and> wd (PrintInitError e) = Inl e'
          \<longrightarrow> initialise_exchange wd ccxt eid = Inl e'"
    using i by (auto simp: handled_def)
  have 8: "\<forall>e. initialise_exception ccxt eid = Some e \<and> \<not> is_Exception e
          \<longrightarrow> initialise_exchange wd ccxt eid = Inl e"
    using i by (auto simp: handled_def)
  from 1 2 3 4 5 6 7 8 show ?thesis by blast
qed

theorem fetch_orderbook_snapshot_catches_Exception_witness:
  "fetch_orderbook_snapshot quiet unreachable 0 ''BTC/USDT'' 20 = Inr None
   \<and> fetch_orderbook_snapshot quiet (serving ragged_book) 0 ''BTC/USDT'' 20 = Inr None
   \<and> fetch_orderbook_snapshot broken_pipe unreachable 0 ''BTC/USDT'' 20 = Inl OSError
   \<and> (\<exists>sn. fetch_orderbook_snapshot quiet (serving example_book) 0 ''BTC/USDT'' 20
             = Inr (Some sn))
   \<and> initialise_exchange quiet (\<lambda>name. None) ''binance'' = Inr None
   \<and> initialise_exchange broken_pipe (\<lambda>name. Some (Inr unreachable)) ''binance'' = Inl OSError
   \<and> initialise_exchange quiet (\<lambda>name. Some (Inr interrupted)) ''binance''
       = Inl KeyboardInterrupt
   \<and> (\<exists>ex0. initialise_exchange quiet (\<lambda>name. Some (Inr (serving example_book))) ''binance''
       = Inr (Some (ex0\<lparr>enableRateLimit := True\<rparr>)))"
proof -
  have c: "fetch_exception (serving example_book) ''BTC/USDT'' 20 = None"
    by (simp add: fetch_exception_def serving_def example_book_def levels_ok_def read_prefix_def
        zero_total_def depth5_def py_sum_def py_add_def overflow_threshold_def)
  have d: "initialise_exception (\<lambda>name. None) ''binance'' = Some AttributeError"
    by (simp add: initialise_exception_def)
  have e: "initialise_exception (\<lambda>name. Some (Inr unreachable)) ''binance'' = Some ConnectorError"
    by (simp add: initialise_exception_def unreachable_def)
  have g: "initialise_exception (\<lambda>name. Some (Inr interrupted)) ''binance''
             = Some KeyboardInterrupt"
    by (simp add: initialise_exception_def interrupted_def)
  have h: "initialise_exception (\<lambda>name. Some (Inr (serving example_book))) ''binance'' = None"
    by (simp add: initialise_exception_def serving_def)
  have q: "quiet m = Inr ()" "broken_pipe m = Inl OSError" for m
    by (simp_all add: quiet_def broken_pipe_def)
  note u = fetch_orderbook_snapshot_catches_Exception
    [of unreachable "''BTC/USDT''" 20 0 quiet "\<lambda>name. None" "''binance''"]
  note r = fetch_orderbook_snapshot_catches_Exception
    [of "serving ragged_book" "''BTC/USDT''" 20 0 quiet "\<lambda>name. Some (Inr interrupted)" "''binance''"]
  note p = fetch_orderbook_snapshot_catches_Exception
    [of unreachable "''BTC/USDT''" 20 0 broken_pipe "\<lambda>name. Some (Inr unreachable)" "''binance''"]
  note x = fetch_orderbook_snapshot_catches_Exception
    [of "serving example_book" "''BTC/USDT''" 20 0 quiet
        "\<lambda>name. Some (Inr (serving example_book))" "''binance''"]
  have w1: "fetch_orderbook_snapshot quiet unreachable 0 ''BTC/USDT'' 20 = Inr None"
    using u fetch_exception_unreachable [of "''BTC/USDT''" 20] q(1) [of "PrintFetchError ConnectorError"]
      is_Exception.simps(6) by blast
  have w2: "fetch_orderbook_snapshot quiet (serving ragged_book) 0 ''BTC/USDT'' 20 = Inr None"
    using r fetch_exception_ragged [of "''BTC/USDT''" 20] q(1) [of "PrintFetchError IndexError"]
      is_Exception.simps(3) by blast
  have w3: "fetch_orderbook_snapshot broken_pipe unreachable 0 ''BTC/USDT'' 20 = Inl OSError"
    using p fetch_exception_unreachable [of "''BTC/USDT''" 20]
      q(2) [of "PrintFetchError ConnectorError"] is_Exception.simps(6) by blast
  have w4: "\<exists>sn. fetch_orderbook_snapshot quiet (serving example_book) 0 ''BTC/USDT'' 20
             = Inr (Some sn)"
    using x c by blast
  have w5: "initialise_exchange quiet (\<lambda>name. None) ''binance'' = Inr None"
    using u d q(1) [of "PrintInitError AttributeError"] is_Exception.simps(5) by blast
  have w6: "initialise_exchange broken_pipe (\<lambda>name. Some (Inr unreachable)) ''binance'' = Inl OSError"
    using p e q(2) [of "PrintInitError ConnectorError"] is_Exception.simps(6) by blast
  have w7: "initialise_exchange quiet (\<lambda>name. Some (Inr interrupted)) ''binance''
       = Inl KeyboardInterrupt"
    using r g is_Exception.simps(1) by blast
  have w8: "\<exists>ex0. initialise_exchange quiet (\<lambda>name. Some (Inr (serving example_book))) ''binance''
       = Inr (Some (ex0\<lparr>enableRateLimit := True\<rparr>))"
    using x h by blast
  from w1 w2 w3 w4 w5 w6 w7 w8 show ?thesis by blast
qed

text \<open>The claim as stated fails: when the request to the exchange is interrupted from the
  keyboard, the exception is not caught and reaches the caller.\<close>

theorem interrupt_reaches_the_caller:
  "fetch_orderbook_snapshot quiet interrupted 0 ''BTC/USDT'' 20 = Inl KeyboardInterrupt"
  by (simp add: fetch_orderbook_snapshot_def fetch_try_def interrupted_def)

subsection \<open>Guards of the derived fields\<close>

text \<open>
  Claim C10, as the code has it. In every snapshot that \<^verbatim>\<open>fetch_orderbook_snapshot\<close>
  returns, \<^verbatim>\<open>spread\<close>, \<^verbatim>\<open>spread_bps\<close> and \<^verbatim>\<open>mid_price\<close> are present exactly when best
  bid and best ask are both present and non-zero, and \<^verbatim>\<open>imbalance_5\<close> is present exactly
  when in addition both five-level depths are present and non-zero. A present
  \<^verbatim>\<open>spread_bps\<close> has a non-zero divisor, a present \<^verbatim>\<open>imbalance_5\<close> has a non-zero total
  depth, and a zero best bid or a zero depth omits the fields. The imbalance is a number in
  \<open>[-1, 1]\<close> when the two depth sums are finite and non-negative; the code checks neither,
  and a depth sum is infinite as soon as the sizes overflow.
\<close>

theorem derived_fields_guarded:
  assumes "fetch_orderbook_snapshot wd ex t symb depth = Inr (Some sn)"
  shows "(spread sn \<noteq> None) = (truthy (best_bid sn) \<and> truthy (best_ask sn))
       \<and> (spread_bps sn \<noteq> None) = (truthy (best_bid sn) \<and> truthy (best_ask sn))
       \<and> (mid_price sn \<noteq> None) = (truthy (best_bid sn) \<and> truthy (best_ask sn))
       \<and> (imbalance_5 sn \<noteq> None) =
           (truthy (best_bid sn) \<and> truthy (best_ask sn)
            \<and> truthy (bid_depth_5 sn) \<and> truthy (ask_depth_5 sn))
       \<and> (spread_bps sn \<noteq> None \<longrightarrow>
            the (best_bid sn) \<noteq> Fin 0
            \<and> spread sn = Some (py_sub (the (best_ask sn)) (the (best_bid sn)))
            \<and> spread_bps sn =
                Some (py_mul (py_quotient (the (spread sn)) (the (best_bid sn))) (Fin 10000))
            \<and> mid_price sn =
                Some (py_quotient (py_add (the (best_bid sn)) (the (best_ask sn))) (Fin 2)))
       \<and> (imbalance_5 sn \<noteq> None \<longrightarrow>
            py_add (the (bid_depth_5 sn)) (the (ask_depth_5 sn)) \<noteq> Fin 0
            \<and> imbalance_5 sn =
                Some (py_quotient (py_sub (the (bid_depth_5 sn)) (the (ask_depth_5 sn)))
                        (py_add (the (bid_depth_5 sn)) (the (ask_depth_5 sn)))))
       \<and> (\<forall>b a. imbalance_5 sn \<noteq> None
                 \<and> bid_depth_5 sn = Some (Fin b) \<and> ask_depth_5 sn = Some (Fin a)
                 \<and> 0 \<le> b \<and> 0 \<le> a
            \<longrightarrow> (\<exists>v. imbalance_5 sn = Some (Fin v) \<and> - 1 \<le> v \<and> v \<le> 1))"
proof -
  from assms have "fetch_try ex t symb depth = Inr sn" by (simp add: fetch_Inr_Some_iff)
  with fetch_try_Inr_iff [of ex t symb depth sn] obtain ob where
    d: "derived_metrics (base_snapshot ob t symb depth) = Inr sn" by blast
  have "spread (base_snapshot ob t symb depth) = None"
       "spread_bps (base_snapshot ob t symb depth) = None"
       "mid_price (base_snapshot ob t symb depth) = None"
       "imbalance_5 (base_snapshot ob t symb depth) = None"
    by (simp_all add: base_snapshot_def)
  note f = derived_metrics_fields [OF d this]
  let ?s = "base_snapshot ob t symb depth"
  have eqs: "best_bid sn = best_bid ?s" "best_ask sn = best_ask ?s"
    "bid_depth_5 sn = bid_depth_5 ?s" "ask_depth_5 sn = ask_depth_5 ?s"
    using f(1-4) by simp_all
  have 1: "(spread sn \<noteq> None) = (truthy (best_bid sn) \<and> truthy (best_ask sn))"
    by (simp add: f(5) eqs del: not_None_eq)
  have 2: "(spread_bps sn \<noteq> None) = (truthy (best_bid sn) \<and> truthy (best_ask sn))"
    by (simp add: f(6) eqs del: not_None_eq)
  have 3: "(mid_price sn \<noteq> None) = (truthy (best_bid sn) \<and> truthy (best_ask sn))"
    by (simp add: f(7) eqs del: not_None_eq)
  have 4: "(imbalance_5 sn \<noteq> None) =
           (truthy (best_bid sn) \<and> truthy (best_ask sn)
            \<and> truthy (bid_depth_5 sn) \<and> truthy (ask_depth_5 sn))"
    by (simp add: f(8) eqs del: not_None_eq)
  have 5: "spread_bps sn \<noteq> None \<longrightarrow>
            the (best_bid sn) \<noteq> Fin 0
            \<and> spread sn = Some (py_sub (the (best_ask sn)) (the (best_bid sn)))
            \<and> spread_bps sn =
                Some (py_mul (py_quotient (the (spread sn)) (the (best_bid sn))) (Fin 10000))
            \<and> mid_price sn =
                Some (py_quotient (py_add (the (best_bid sn)) (the (best_ask sn))) (Fin 2))"
  proof
    assume "spread_bps sn \<noteq> None"
    with 2 have t: "truthy (best_bid ?s) \<and> truthy (best_ask ?s)" by (simp add: eqs)
    then have "the (best_bid ?s) \<noteq> Fin 0" by (auto simp: truthy_def split: option.splits)
    with t show "the (best_bid sn) \<noteq> Fin 0
            \<and> spread sn = Some (py_sub (the (best_ask sn)) (the (best_bid sn)))
            \<and> spread_bps sn =
                Some (py_mul (py_quotient (the (spread sn)) (the (best_bid sn))) (Fin 10000))
            \<and> mid_price sn =
                Some (py_quotient (py_add (the (best_bid sn)) (the (best_ask sn))) (Fin 2))"
      by (simp add: f(5) f(6) f(7) eqs)
  qed
  have 6: "imbalance_5 sn \<noteq> None \<longrightarrow>
            py_add (the (bid_depth_5 sn)) (the (ask_depth_5 sn)) \<noteq> Fin 0
            \<and> imbalance_5 sn =
                Some (py_quotient (py_sub (the (bid_depth_5 sn)) (the (ask_depth_5 sn)))
                        (py_add (the (bid_depth_5 sn)) (the (ask_depth_5 sn))))"
  proof
    assume "imbalance_5 sn \<noteq> None"
    with 4 have t: "truthy (best_bid ?s) \<and> truthy (best_ask ?s)
        \<and> truthy (bid_depth_5 ?s) \<and> truthy (ask_depth_5 ?s)" by (simp add: eqs)
    with f(9) have "py_add (the (bid_depth_5 ?s)) (the (ask_depth_5 ?s)) \<noteq> Fin 0" by blast
    with t show "py_add (the (bid_depth_5 sn)) (the (ask_depth_5 sn)) \<noteq> Fin 0
            \<and> imbalance_5 sn =
                Some (py_quotient (py_sub (the (bid_depth_5 sn)) (the (ask_depth_5 sn)))
                        (py_add (the (bid_depth_5 sn)) (the (ask_depth_5 sn))))"
      by (simp add: f(8) eqs del: not_None_eq)
  qed
  have 7: "\<forall>b a. imbalance_5 sn \<noteq> None
                 \<and> bid_depth_5 sn = Some (Fin b) \<and> ask_depth_5 sn = Some (Fin a)
                 \<and> 0 \<le> b \<and> 0 \<le> a
            \<longrightarrow> (\<exists>v. imbalance_5 sn = Some (Fin v) \<and> - 1 \<le> v \<and> v \<le> 1)"
  proof (intro allI impI)
    fix b a
    assume h: "imbalance_5 sn \<noteq> None
                 \<and> bid_depth_5 sn = Some (Fin b) \<and> ask_depth_5 sn = Some (Fin a)
                 \<and> 0 \<le> b \<and> 0 \<le> a"
    then have bd: "depth_of (ob_bids ob) 5 = Some (Fin b)"
      and ad: "depth_of (ob_asks ob) 5 = Some (Fin a)"
      by (simp_all add: eqs base_snapshot_def)
    from h 6 have nz: "py_add (Fin b) (Fin a) \<noteq> Fin 0"
      and v: "imbalance_5 sn = Some (py_quotient (py_sub (Fin b) (Fin a)) (py_add (Fin b) (Fin a)))"
      by simp_all
    from depth_of_normal [OF bd] depth_of_normal [OF ad] h
    have "\<exists>v. py_quotient (py_sub (Fin b) (Fin a)) (py_add (Fin b) (Fin a)) = Fin v
             \<and> - 1 \<le> v \<and> v \<le> 1"
      using nz by (intro imbalance_bound) simp_all
    with v show "\<exists>v. imbalance_5 sn = Some (Fin v) \<and> - 1 \<le> v \<and> v \<le> 1" by simp
  qed
  from 1 2 3 4 5 6 7 show ?thesis by blast
qed

theorem derived_fields_guarded_witness:
  "fetch_orderbook_snapshot quiet (serving example_book) 0 ''BTC/USDT'' 20
     = Inr (Some example_snapshot)
   \<and> spread_bps example_snapshot \<noteq> None
   \<and> imbalance_5 example_snapshot \<noteq> None
   \<and> bid_depth_5 example_snapshot = Some (Fin 7) \<and> ask_depth_5 example_snapshot = Some (Fin 3)
   \<and> the (best_bid example_snapshot) \<noteq> Fin 0
   \<and> py_add (the (bid_depth_5 example_snapshot)) (the (ask_depth_5 example_snapshot)) \<noteq> Fin 0
   \<and> (\<exists>v. imbalance_5 example_snapshot = Some (Fin v) \<and> - 1 \<le> v \<and> v \<le> 1)"
proof -
  have p: "spread_bps example_snapshot \<noteq> None" "imbalance_5 example_snapshot \<noteq> None"
    "bid_depth_5 example_snapshot = Some (Fin 7)" "ask_depth_5 example_snapshot = Some (Fin 3)"
    "(0::real) \<le> 7" "(0::real) \<le> 3"
    by (simp_all add: example_snapshot_def)
  from derived_fields_guarded [OF example_fetch [of quiet]] p example_fetch [of quiet]
  show ?thesis by blast
qed

text \<open>The claim as stated fails on a book with a negative size: the five-level depths are
  3 and -1, both non-zero, and the imbalance is 2.\<close>

theorem imbalance_outside_unit_interval:
  "map_sum id (map_option imbalance_5)
     (fetch_orderbook_snapshot quiet (serving skewed_book) 0 ''BTC/USDT'' 20)
     = Inr (Some (Some (Fin 2)))"
  by (simp add: fetch_eval skewed_book_def)

text \<open>It also fails on a book whose sizes are finite and positive: five sizes of
  \<open>10 ^ 308\<close> on each side sum to infinity, and the imbalance is NaN.\<close>

lemma imbalance_undefined_on_overflow:
  "map_sum id (map_option (\<lambda>sn. (bid_depth_5 sn, ask_depth_5 sn, imbalance_5 sn)))
     (fetch_orderbook_snapshot quiet (serving huge_book) 0 ''BTC/USDT'' 20)
     = Inr (Some (Some PInf, Some PInf, Some NaN))"
  by (simp add: fetch_eval huge_book_def)

subsection \<open>The sampler loop\<close>

lemma unit_sum_cases: "(m :: exn + unit) = Inr () \<or> (\<exists>e. m = Inl e)"
  by (cases m) auto

lemma quiet_apply: "quiet m = Inr ()"
  by (simp add: quiet_def)

lemma perform_all_quiet: "perform_all quiet es = Inr ()"
  by (induction es) (simp_all add: quiet_apply)

lemma tick_eq:
  "tick iv symb st ob =
     bind (perform_all (world_at ob) (schedule_effects (next_target st - now ob))) (\<lambda>_.
     bind (fetched symb ob) (\<lambda>r.
     bind (world_at ob (log_line st r)) (\<lambda>_. Inr (after_tick iv st ob r))))"
proof (cases "perform_all (world_at ob) (schedule_effects (next_target st - now ob))")
  case (Inl e)
  then show ?thesis by (simp add: tick_def Let_def)
next
  case p: (Inr u)
  show ?thesis
  proof (cases "fetched symb ob")
    case (Inl e)
    with p show ?thesis by (simp add: tick_def Let_def fetched_def)
  next
    case f: (Inr r)
    show ?thesis
    proof (cases r)
      case None
      show ?thesis
      proof (cases "world_at ob (LogError (errors st + 1))")
        case (Inl e)
        with p f None show ?thesis
          by (simp add: tick_def Let_def fetched_def [symmetric] log_line_def)
      next
        case (Inr v)
        with p f None show ?thesis
          by (simp add: tick_def Let_def fetched_def [symmetric] log_line_def after_tick_def)
      qed
    next
      case (Some sn)
      show ?thesis
      proof (cases "world_at ob (LogSnapshot (snapshot_count st + 1))")
        case (Inl e)
        with p f Some show ?thesis
          by (simp add: tick_def Let_def fetched_def [symmetric] log_line_def)
      next
        case (Inr v)
        with p f Some show ?thesis
          by (simp add: tick_def Let_def fetched_def [symmetric] log_line_def after_tick_def)
      qed
    qed
  qed
qed

lemma tick_Inr_iff:
  "tick iv symb st ob = Inr st' \<longleftrightarrow>
     perform_all (world_at ob) (schedule_effects (next_target st - now ob)) = Inr ()
     \<and> (\<exists>r. fetched symb ob = Inr r \<and> world_at ob (log_line st r) = Inr ()
           \<and> st' = after_tick iv st ob r)"
  by (auto simp: tick_eq bind_Inr_iff)

lemma tick_Inl_iff:
  "tick iv symb st ob = Inl e \<longleftrightarrow>
     perform_all (world_at ob) (schedule_effects (next_target st - now ob)) = Inl e
     \<or> perform_all (world_at ob) (schedule_effects (next_target st - now ob)) = Inr ()
       \<and> (fetched symb ob = Inl e
          \<or> (\<exists>r. fetched symb ob = Inr r \<and> world_at ob (log_line st r) = Inl e))"
  by (auto simp: tick_eq bind_Inl_iff)

lemma tick_returned:
  assumes "perform_all (world_at ob) (schedule_effects (next_target st - now ob)) = Inr ()"
    and "fetched symb ob = Inr r" and "world_at ob (log_line st r) = Inr ()"
  shows "tick iv symb st ob = Inr (after_tick iv st ob r)"
  using assms by (simp add: tick_Inr_iff)

lemma sampler_loop_eq:
  "sampler_loop end_time iv symb st trace =
     (case run_ticks iv symb st (iterations end_time trace) of
        Inl e \<Rightarrow> Some (Inl e)
      | Inr st' \<Rightarrow> if \<exists>ob\<in>set trace. end_time \<le> clock ob then Some (Inr st') else None)"
proof (induction trace arbitrary: st)
  case Nil
  then show ?case by (simp add: iterations_def)
next
  case (Cons ob rest)
  show ?case
  proof (cases "clock ob < end_time")
    case True
    then have it: "iterations end_time (ob # rest) = ob # iterations end_time rest"
      by (simp add: iterations_def)
    show ?thesis
    proof (cases "tick iv symb st ob")
      case (Inl e)
      with True it show ?thesis by simp
    next
      case (Inr st1)
      with True it Cons [of st1] show ?thesis by (auto split: sum.splits)
    qed
  next
    case False
    then show ?thesis by (auto simp: iterations_def)
  qed
qed

lemma run_ticks_Inr:
  "run_ticks iv symb st obs = Inr st' \<Longrightarrow>
     next_target st' = next_target st + real (length obs) * iv
     \<and> snapshots st' = snapshots st @ List.map_filter (captured symb) obs
     \<and> snapshot_count st' = snapshot_count st + length (List.map_filter (captured symb) obs)
     \<and> errors st' = errors st + length (filter (\<lambda>ob. fetched symb ob = Inr None) obs)
     \<and> (\<forall>ob\<in>set obs. \<not> isl (fetched symb ob))"
proof (induction obs arbitrary: st)
  case Nil
  then show ?case by (simp add: List.map_filter_simps)
next
  case (Cons ob obs)
  from Cons.prems obtain st1 where t: "tick iv symb st ob = Inr st1"
    and r: "run_ticks iv symb st1 obs = Inr st'"
    by (auto simp: bind_Inr_iff)
  from t obtain r0 where f: "fetched symb ob = Inr r0" and s1: "st1 = after_tick iv st ob r0"
    by (auto simp: tick_Inr_iff)
  note ih = Cons.IH [OF r]
  show ?case
  proof (cases r0)
    case None
    with f have c: "captured symb ob = None" by (simp add: captured_def)
    from ih f None c show ?thesis
      by (simp add: s1 after_tick_def List.map_filter_simps algebra_simps)
  next
    case (Some s)
    with f have c: "captured symb ob = Some s" by (simp add: captured_def)
    from ih f Some c show ?thesis
      by (simp add: s1 after_tick_def List.map_filter_simps algebra_simps)
  qed
qed


lemma sleep_total_schedule: "sleep_total (schedule_effects w) = max 0 w"
  by (simp add: schedule_effects_def)

lemma warning_schedule: "list_ex is_warning (schedule_effects w) \<longleftrightarrow> w < - 1"
  by (simp add: schedule_effects_def)

lemma fetched_failing: "fetched symb failing_obs = Inr None"
  using fetch_exception_cases [of quiet unreachable 0 symb 20]
  by (simp add: fetched_def failing_obs_def fetch_exception_unreachable handled_def quiet_def)

lemma fetched_late: "fetched symb late_obs = Inr None"
  using fetch_exception_cases [of quiet unreachable 2 symb 20]
  by (simp add: fetched_def late_obs_def fetch_exception_unreachable handled_def quiet_def)

lemma fetched_good: "fetched ''BTC/USDT'' good_obs = Inr (Some example_snapshot)"
  by (simp add: fetched_def good_obs_def example_fetch)

lemma fetched_interrupted: "fetched symb interrupted_obs = Inl KeyboardInterrupt"
  using fetch_exception_cases [of quiet interrupted 20 symb 20]
  by (simp add: fetched_def interrupted_obs_def fetch_exception_interrupted handled_def)

lemma world_at_quiet:
  "world_at failing_obs = quiet" "world_at good_obs = quiet" "world_at final_obs = quiet"
  "world_at late_obs = quiet" "world_at interrupted_obs = quiet"
  by (simp_all add: failing_obs_def good_obs_def final_obs_def late_obs_def interrupted_obs_def)

lemma tick_failing:
  "tick iv symb st failing_obs = Inr (after_tick iv st failing_obs None)"
  by (rule tick_returned) (simp_all add: world_at_quiet perform_all_quiet fetched_failing quiet_apply)

lemma tick_late:
  "tick iv symb st late_obs = Inr (after_tick iv st late_obs None)"
  by (rule tick_returned) (simp_all add: world_at_quiet perform_all_quiet fetched_late quiet_apply)

lemma tick_good:
  "tick iv ''BTC/USDT'' st good_obs = Inr (after_tick iv st good_obs (Some example_snapshot))"
  by (rule tick_returned) (simp_all add: world_at_quiet perform_all_quiet fetched_good quiet_apply)

lemma tick_interrupted: "tick iv symb st interrupted_obs = Inl KeyboardInterrupt"
  by (simp add: tick_Inl_iff world_at_quiet perform_all_quiet fetched_interrupted)

lemma example_iterations:
  "iterations 60 [failing_obs, final_obs] = [failing_obs]"
  "iterations 60 [failing_obs, good_obs, final_obs] = [failing_obs, good_obs]"
  "iterations 60 [good_obs, final_obs] = [good_obs]"
  "iterations 60 [failing_obs, good_obs] = [failing_obs, good_obs]"
  by (simp_all add: iterations_def failing_obs_def good_obs_def final_obs_def)

lemma example_clocks:
  "clock failing_obs = 0" "clock good_obs = 10" "clock final_obs = 60"
  by (simp_all add: failing_obs_def good_obs_def final_obs_def)

lemma example_loop:
  "sampler_loop 60 10 ''BTC/USDT'' (initial_state 0) [failing_obs, good_obs, final_obs]
     = Some (Inr (after_tick 10 (after_tick 10 (initial_state 0) failing_obs None) good_obs
                    (Some example_snapshot)))"
  by (simp add: sampler_loop_eq example_iterations tick_failing tick_good example_clocks)

text \<open>
  Claim C4, as the code has it. In the sampler loop of \<^verbatim>\<open>collect_orderbook_data\<close> the
  time slept before a fetch is \<open>max 0 (target - now)\<close>, so it is never negative; in every
  iteration that completes the target advances by exactly one interval whatever the clock
  readings and the fetch outcomes are, so after n iterations it is \<open>t0 + n * interval\<close>;
  every such iteration performs its fetch (one log entry per iteration, no tick is
  skipped). The behind-schedule warning is printed exactly when the iteration starts more
  than one second after its target; the interval does not enter that test. An iteration
  does not complete exactly when its sleep, one of its \<^verbatim>\<open>print\<close> calls or its fetch raises;
  the exception then ends the loop.
\<close>

theorem sampler_schedule:
  "(\<forall>st'. run_ticks iv symb (initial_state t0) obs = Inr st'
       \<longrightarrow> next_target st' = t0 + real (length obs) * iv)
   \<and> (\<forall>st'. tick iv symb st ob = Inr st' \<longrightarrow>
         next_target st' = next_target st + iv
       \<and> (\<exists>r. fetched symb ob = Inr r
             \<and> effects st' =
                 effects st @ schedule_effects (next_target st - now ob)
                   @ [case r of Some s \<Rightarrow> LogSnapshot (snapshot_count st + 1)
                              | None \<Rightarrow> LogError (errors st + 1)]))
   \<and> sleep_total (schedule_effects (next_target st - now ob)) = max 0 (next_target st - now ob)
   \<and> (list_ex is_warning (schedule_effects (next_target st - now ob))
        \<longleftrightarrow> now ob - next_target st > 1)
   \<and> (\<forall>st'. sampler_loop end_time iv symb (initial_state t0) trace = Some (Inr st') \<longrightarrow>
         run_ticks iv symb (initial_state t0) (iterations end_time trace) = Inr st'
         \<and> next_target st' = t0 + real (length (iterations end_time trace)) * iv)
   \<and> (\<forall>e. tick iv symb st ob = Inl e \<longleftrightarrow>
         perform_all (world_at ob) (schedule_effects (next_target st - now ob)) = Inl e
         \<or> perform_all (world_at ob) (schedule_effects (next_target st - now ob)) = Inr ()
           \<and> (fetched symb ob = Inl e
              \<or> (\<exists>r. fetched symb ob = Inr r
                    \<and> world_at ob (case r of Some s \<Rightarrow> LogSnapshot (snapshot_count st + 1)
                                           | None \<Rightarrow> LogError (errors st + 1)) = Inl e)))"
proof -
  have 1: "\<forall>st'. run_ticks iv symb (initial_state t0) obs = Inr st'
       \<longrightarrow> next_target st' = t0 + real (length obs) * iv" for obs
    using run_ticks_Inr [of iv symb "initial_state t0" obs]
    by (auto simp: initial_state_def)
  have 2: "\<forall>st'. tick iv symb st ob = Inr st' \<longrightarrow>
         next_target st' = next_target st + iv
       \<and> (\<exists>r. fetched symb ob = Inr r
             \<and> effects st' =
                 effects st @ schedule_effects (next_target st - now ob)
                   @ [case r of Some s \<Rightarrow> LogSnapshot (snapshot_count st + 1)
                              | None \<Rightarrow> LogError (errors st + 1)])"
    by (auto simp: tick_Inr_iff after_tick_def log_line_def)
  have 5: "list_ex is_warning (schedule_effects (next_target st - now ob))
        \<longleftrightarrow> now ob - next_target st > 1"
    by (auto simp: warning_schedule)
  have 6: "\<forall>st'. sampler_loop end_time iv symb (initial_state t0) trace = Some (Inr st') \<longrightarrow>
         run_ticks iv symb (initial_state t0) (iterations end_time trace) = Inr st'
         \<and> next_target st' = t0 + real (length (iterations end_time trace)) * iv"
    using 1 [of "iterations end_time trace"]
    by (auto simp: sampler_loop_eq split: sum.splits if_splits)
  have 7: "\<forall>e. tick iv symb st ob = Inl e \<longleftrightarrow>
         perform_all (world_at ob) (schedule_effects (next_target st - now ob)) = Inl e
         \<or> perform_all (world_at ob) (schedule_effects (next_target st - now ob)) = Inr ()
           \<and> (fetched symb ob = Inl e
              \<or> (\<exists>r. fetched symb ob = Inr r
                    \<and> world_at ob (case r of Some s \<Rightarrow> LogSnapshot (snapshot_count st + 1)
                                           | None \<Rightarrow> LogError (errors st + 1)) = Inl e))"
    using tick_Inl_iff [of iv symb st ob] by (simp add: log_line_def)
  from 1 [of obs] 2 5 6 7 sleep_total_schedule [of "next_target st - now ob"]
  show ?thesis by blast
qed

theorem sampler_schedule_witness:
  "(\<exists>st'. run_ticks 10 ''BTC/USDT'' (initial_state 0) [failing_obs, good_obs] = Inr st'
          \<and> sampler_loop 60 10 ''BTC/USDT'' (initial_state 0) [failing_obs, good_obs, final_obs]
              = Some (Inr st')
          \<and> next_target st' = 20)
   \<and> (\<exists>st'. tick 10 ''BTC/USDT'' (initial_state 0) late_obs = Inr st'
          \<and> next_target st' = 10 \<and> effects st' = [WarnBehind 2, LogError 1])
   \<and> sleep_total (schedule_effects (next_target (initial_state 0) - now late_obs)) = 0
   \<and> tick 10 ''BTC/USDT'' (initial_state 0) interrupted_obs = Inl KeyboardInterrupt"
proof -
  note s = sampler_schedule [of 10 "''BTC/USDT''" 0 "[failing_obs, good_obs]" "initial_state 0"
      late_obs 60 "[failing_obs, good_obs, final_obs]"]
  note i = sampler_schedule [of 10 "''BTC/USDT''" 0 "[failing_obs, good_obs]" "initial_state 0"
      interrupted_obs 60 "[failing_obs, good_obs, final_obs]"]
  let ?st2 = "after_tick 10 (after_tick 10 (initial_state 0) failing_obs None) good_obs
                (Some example_snapshot)"
  let ?st1 = "after_tick 10 (initial_state 0) late_obs None"
  have nw: "now late_obs = 2" by (simp add: late_obs_def)
  have run: "run_ticks 10 ''BTC/USDT'' (initial_state 0) [failing_obs, good_obs] = Inr ?st2"
    by (simp add: tick_failing tick_good)
  from s example_loop have a0: "next_target ?st2 = 0 + real (length (iterations 60 [failing_obs, good_obs, final_obs])) * 10"
    by blast
  have a: "next_target ?st2 = 20" unfolding a0 by (simp add: example_iterations)
  from s tick_late [of 10 "''BTC/USDT''" "initial_state 0"]
  have b0: "next_target ?st1 = next_target (initial_state 0) + 10
       \<and> (\<exists>r. fetched ''BTC/USDT'' late_obs = Inr r
             \<and> effects ?st1 =
                 effects (initial_state 0) @ schedule_effects (next_target (initial_state 0) - now late_obs)
                   @ [case r of Some s \<Rightarrow> LogSnapshot (snapshot_count (initial_state 0) + 1)
                              | None \<Rightarrow> LogError (errors (initial_state 0) + 1)])"
    by blast
  then have b1: "next_target ?st1 = 10" by (simp add: initial_state_def)
  from b0 have b2: "effects ?st1 = [WarnBehind 2, LogError 1]"
    by (auto simp: fetched_late nw initial_state_def schedule_effects_def)
  from s have c0: "sleep_total (schedule_effects (next_target (initial_state 0) - now late_obs))
      = max 0 (next_target (initial_state 0) - now late_obs)" by blast
  have c: "sleep_total (schedule_effects (next_target (initial_state 0) - now late_obs)) = 0"
    unfolding c0 by (simp add: nw initial_state_def)
  have pq: "perform_all (world_at interrupted_obs)
              (schedule_effects (next_target (initial_state 0) - now interrupted_obs)) = Inr ()"
    by (simp add: world_at_quiet perform_all_quiet)
  from i pq fetched_interrupted [of "''BTC/USDT''"]
  have d: "tick 10 ''BTC/USDT'' (initial_state 0) interrupted_obs = Inl KeyboardInterrupt"
    by blast
  from run example_loop a tick_late [of 10 "''BTC/USDT''" "initial_state 0"] b1 b2 c d
  show ?thesis by blast
qed

text \<open>With a ten-second interval an iteration that starts two seconds late prints the
  warning although the loop is less than one interval behind.\<close>

theorem warning_within_one_interval:
  "map_sum id effects (tick 10 ''BTC/USDT'' (initial_state 0) late_obs)
     = Inr [WarnBehind 2, LogError 1]
   \<and> now late_obs - next_target (initial_state 0) = 2
   \<and> \<not> (now late_obs - next_target (initial_state 0) > 10)"
proof -
  have nw: "now late_obs = 2" by (simp add: late_obs_def)
  show ?thesis
    by (simp add: tick_late after_tick_def log_line_def nw initial_state_def schedule_effects_def)
qed














subsection \<open>Variance ratios\<close>

lemma set_update_sub: "set (AList.update k v al) \<subseteq> insert (k, v) (set al)"
  by (induction al) auto

lemma fold_update_entries:
  "(k, v) \<in> set (fold (\<lambda>k acc. AList.update k (f k) acc) ks acc0) \<Longrightarrow>
     (k, v) \<in> set acc0 \<or> (k \<in> set ks \<and> v = f k)"
proof (induction ks arbitrary: acc0)
  case Nil
  then show ?case by simp
next
  case (Cons a ks)
  from Cons.prems
  have "(k, v) \<in> set (fold (\<lambda>k acc. AList.update k (f k) acc) ks (AList.update a (f a) acc0))"
    by simp
  from Cons.IH [OF this] set_update_sub [of a "f a" acc0]
  show ?case by auto
qed

lemma fold_update_keys:
  "fst ` set (fold (\<lambda>k acc. AList.update k (f k) acc) ks acc0) = set ks \<union> fst ` set acc0"
  by (induction ks arbitrary: acc0) (auto simp: dom_update)

lemma sumsq_dev_nonneg: "0 \<le> sumsq_dev xs"
  unfolding sumsq_dev_def by (rule sum_list_nonneg) auto

lemma var_cases: "var xs = NaN \<or> (\<exists>x\<ge>0. var xs = Fin x)"
  by (auto simp: var_def Let_def sumsq_dev_nonneg)

lemma sum_sq_zeros: "\<forall>x\<in>set xs. x = (0::real) \<Longrightarrow> (\<Sum>x\<leftarrow>xs. (x - 0) ^ 2) = 0"
  by (induction xs) auto

lemma sumsq_dev_zeros: "\<forall>x\<in>set xs. x = 0 \<Longrightarrow> sumsq_dev xs = 0"
proof -
  assume a: "\<forall>x\<in>set xs. x = 0"
  then have "sum_list xs = 0" by (induction xs) auto
  then have "mean_r xs = 0" by (simp add: mean_r_def)
  with sum_sq_zeros [OF a] show ?thesis unfolding sumsq_dev_def by simp
qed

lemma var_zeros:
  assumes "\<forall>x\<in>set xs. x = Fin 0 \<or> x = NaN"
  shows "var xs = NaN \<or> var xs = Fin 0"
proof -
  have "\<forall>x\<in>set (map the_fin (dropna xs)). x = 0"
    using assms by (auto simp: dropna_def)
  then have "sumsq_dev (map the_fin (dropna xs)) = 0" by (rule sumsq_dev_zeros)
  then show ?thesis by (simp add: var_def Let_def)
qed

lemma fdiv_self_cases: "fdiv c c = Fin 1 \<or> fdiv c c = NaN"
  by (cases c) auto

lemma shift_replicate_set: "b \<in> set (shift (replicate n c) k) \<Longrightarrow> b = c \<or> b = NaN"
  by (auto simp: shift_def Let_def)

lemma flog_fdiv_const: "b = c \<or> b = NaN \<Longrightarrow> flog (fdiv c b) = Fin 0 \<or> flog (fdiv c b) = NaN"
  using fdiv_self_cases [of c] by (cases c) auto

lemma log_returns_const:
  assumes "x \<in> set (log_returns_k (replicate n c) k)"
  shows "x = Fin 0"
proof -
  from assms obtain a b where ab: "(a, b) \<in> set (zip (replicate n c) (shift (replicate n c) k))"
    and x: "x = flog (fdiv a b)" "x \<noteq> NaN"
    by (auto simp: log_returns_k_def dropna_def np_log_def series_div_def)
  from ab have "a = c" by (auto dest: set_zip_leftD)
  moreover from ab have "b = c \<or> b = NaN" by (auto dest!: set_zip_rightD shift_replicate_set)
  ultimately show ?thesis using x flog_fdiv_const [of b c] by auto
qed

lemma var_ratio_const:
  "var_ratio (replicate n c) (var (log_returns_k (replicate n c) 1)) k = NaN"
proof -
  have 1: "var (log_returns_k (replicate n c) 1) = NaN \<or> var (log_returns_k (replicate n c) 1) = Fin 0"
    by (rule var_zeros) (auto dest: log_returns_const)
  have 2: "var (log_returns_k (replicate n c) k) = NaN \<or> var (log_returns_k (replicate n c) k) = Fin 0"
    by (rule var_zeros) (auto dest: log_returns_const)
  from 1 2 show ?thesis by (auto simp: var_ratio_def)
qed

lemma foldl_fadd_NaN: "foldl fadd NaN xs = NaN"
  by (induction xs) auto

lemma foldl_fadd_with_NaN: "NaN \<in> set xs \<Longrightarrow> foldl fadd a xs = NaN"
proof (induction xs arbitrary: a)
  case Nil
  then show ?case by simp
next
  case (Cons x xs)
  then show ?case by (cases "x = NaN") (auto simp: foldl_fadd_NaN, cases a, auto simp: foldl_fadd_NaN)
qed

lemma np_mean_all_NaN: "\<forall>x\<in>set xs. x = NaN \<Longrightarrow> np_mean xs = NaN"
  by (cases xs) (auto simp: np_mean_def foldl_fadd_NaN)

lemma characterize_NaN: "characterize NaN = ''Approximately efficient (random walk)''"
  by (simp add: characterize_def flt_def)

lemma np_mean_finite:
  assumes "xs \<noteq> []" "list_all is_fin xs"
  shows "np_mean xs = Fin (mean_r (map the_fin xs))"
proof -
  have "list_all is_fin xs \<Longrightarrow> foldl fadd (Fin a) xs = Fin (a + sum_list (map the_fin xs))" for a
  proof (induction xs arbitrary: a)
    case Nil
    then show ?case by simp
  next
    case (Cons x xs)
    then show ?case by (cases x) (auto simp: add.assoc)
  qed
  from this [OF assms(2), of 0] assms(1) show ?thesis
    by (simp add: np_mean_def mean_r_def)
qed

lemma fge_Fin: "fge (Fin a) (Fin b) \<longleftrightarrow> b \<le> a"
  by (auto simp: fge_def feq_def)

lemma var_ratio_nonneg:
  assumes "fgt variance (Fin 0)" "0 < k" "variance \<noteq> PInf"
  shows "var_ratio p variance k = NaN \<or> fge (var_ratio p variance k) (Fin 0)"
proof -
  from assms obtain v where v: "variance = Fin v" "0 < v" by (cases variance) auto
  from var_cases [of "log_returns_k p k"] show ?thesis
  proof
    assume "var (log_returns_k p k) = NaN"
    then show ?thesis by (simp add: var_ratio_def)
  next
    assume "\<exists>x\<ge>0. var (log_returns_k p k) = Fin x"
    then obtain x where "0 \<le> x" "var (log_returns_k p k) = Fin x" by blast
    with v assms(2) show ?thesis
      by (simp add: var_ratio_def fge_Fin)
  qed
qed

lemma var_ratio_NaN_iff:
  assumes "fgt variance (Fin 0)" "0 < k" "variance \<noteq> PInf"
  shows "var_ratio p variance k = NaN \<longleftrightarrow> var (log_returns_k p k) = NaN"
  using assms var_cases [of "log_returns_k p k"]
  by (cases variance) (auto simp: var_ratio_def)

lemma var_not_PInf: "var xs \<noteq> PInf"
  using var_cases [of xs] by auto

lemma upt3: "[0..<3] = [0, 1, 2]"
  by (simp add: upt_conv_Cons)

lemma column_flat: "column flat_frame ''mid_price'' = Inr (replicate 3 (Fin 2))"
  by (simp add: column_def flat_frame_def fit_def cell_def upt3 numeral_3_eq_3)

lemma column_short: "column short_frame ''mid_price'' = Inr [Fin 1, Fin 2, Fin 2]"
  by (simp add: column_def short_frame_def fit_def cell_def upt3)

lemma short_returns_2: "log_returns_k [Fin 1, Fin 2, Fin 2] 2 = [Fin (ln 2)]"
  by (simp add: log_returns_k_def dropna_def np_log_def series_div_def shift_def Let_def upt3)

lemma short_returns_1: "log_returns_k [Fin 1, Fin 2, Fin 2] 1 = [Fin (ln 2), Fin 0]"
  by (simp add: log_returns_k_def dropna_def np_log_def series_div_def shift_def Let_def upt3)

lemma short_variance: "var (log_returns_k [Fin 1, Fin 2, Fin 2] 1) = Fin ((ln 2)\<^sup>2 / 2)"
  by (simp add: short_returns_1 var_def dropna_def sumsq_dev_def mean_r_def Let_def power2_eq_square
      field_simps)


lemma efficiency_result:
  assumes "column df ''mid_price'' = Inr p"
  shows "test_market_efficiency df lags =
     Inr \<lparr>variance_ratios =
            fold (\<lambda>k acc. AList.update k (var_ratio p (var (log_returns_k p 1)) k) acc) lags [],
          average_vr = np_mean (map snd
            (fold (\<lambda>k acc. AList.update k (var_ratio p (var (log_returns_k p 1)) k) acc) lags [])),
          market_characterization = characterize (np_mean (map snd
            (fold (\<lambda>k acc. AList.update k (var_ratio p (var (log_returns_k p 1)) k) acc) lags [])))\<rparr>"
  using assms by (simp add: test_market_efficiency_def Let_def)

lemma efficiency_Inr:
  assumes "test_market_efficiency df lags = Inr r"
  shows "\<exists>p. column df ''mid_price'' = Inr p"
  using assms by (cases "column df ''mid_price''") (auto simp: test_market_efficiency_def)

lemma short_result_1:
  "test_market_efficiency short_frame [1] =
     Inr \<lparr>variance_ratios = [(1, Fin 1)], average_vr = Fin 1,
          market_characterization = ''Approximately efficient (random walk)''\<rparr>"
proof -
  have "ln (2::real) \<noteq> 0" by simp
  then show ?thesis
    by (simp add: efficiency_result [OF column_short] short_variance var_ratio_def np_mean_def
        characterize_def flt_def)
qed

text \<open>
  Claim C2, as the code has it. When \<^verbatim>\<open>mid_price\<close> is constant over all rows,
  \<^verbatim>\<open>test_market_efficiency\<close> does not fail, it reports one ratio per lag, every ratio and
  the average are NaN (nothing is replaced by a default number), and the
  characterisation is the one of the final \<^verbatim>\<open>else\<close> branch, \<open>Approximately efficient
  (random walk)\<close>: both comparisons of the three-way test are false on NaN, and the code
  has no separate outcome for an undefined average.
\<close>

theorem constant_mid_price_undefined:
  assumes "column df ''mid_price'' = Inr (replicate n c)"
  shows "\<exists>r. test_market_efficiency df lags = Inr r
           \<and> fst ` set (variance_ratios r) = set lags
           \<and> (\<forall>(k, v)\<in>set (variance_ratios r). v = NaN)
           \<and> average_vr r = NaN
           \<and> market_characterization r = ''Approximately efficient (random walk)''"
proof -
  let ?p = "replicate n c"
  let ?rs = "fold (\<lambda>k acc. AList.update k (var_ratio ?p (var (log_returns_k ?p 1)) k) acc) lags []"
  have keys: "fst ` set ?rs = set lags"
    by (simp add: fold_update_keys)
  have vals: "\<forall>(k, v)\<in>set ?rs. v = NaN"
    using fold_update_entries [of _ _ "var_ratio ?p (var (log_returns_k ?p 1))" lags "[]"]
    by (auto simp: var_ratio_const)
  then have "\<forall>x\<in>set (map snd ?rs). x = NaN" by auto
  then have avg: "np_mean (map snd ?rs) = NaN" by (rule np_mean_all_NaN)
  from efficiency_result [OF assms, of lags] keys vals avg characterize_NaN
  show ?thesis by simp
qed

theorem constant_mid_price_undefined_witness:
  "column flat_frame ''mid_price'' = Inr (replicate 3 (Fin 2))
   \<and> (\<exists>r. test_market_efficiency flat_frame [2, 5] = Inr r
          \<and> fst ` set (variance_ratios r) = {2, 5}
          \<and> average_vr r = NaN
          \<and> market_characterization r = ''Approximately efficient (random walk)'')"
  using constant_mid_price_undefined [OF column_flat, of "[2, 5]"] column_flat by auto

text \<open>The claim as stated fails: on three rows of price 2 the result is reported as
  approximately efficient.\<close>

theorem constant_mid_price_reported_efficient:
  "test_market_efficiency flat_frame [2] =
     Inr \<lparr>variance_ratios = [(2, NaN)], average_vr = NaN,
          market_characterization = ''Approximately efficient (random walk)''\<rparr>"
  using var_ratio_const [of 3 "Fin 2" 2]
  by (simp add: efficiency_result [OF column_flat] np_mean_def characterize_NaN)

text \<open>
  Claim C8, as the code has it. Every reported ratio is \<open>Vk / (k * V1)\<close>, where \<open>V1\<close> and
  \<open>Vk\<close> are the sample variances (sum of squared deviations over the count minus one) of
  the defined one-step and k-step log returns, and one ratio is reported per lag. When
  \<open>V1 > 0\<close> and \<open>k > 0\<close> the ratio is undefined (NaN) exactly when \<open>Vk\<close> is, which
  happens when fewer than two k-step returns are defined or one is infinite, and is
  otherwise non-negative. \<^verbatim>\<open>average_vr\<close> is the mean of the reported ratios: their sum over
  their number when all are finite.
\<close>

theorem variance_ratio_values:
  assumes "test_market_efficiency df lags = Inr r"
  shows "\<exists>p. column df ''mid_price'' = Inr p
     \<and> fst ` set (variance_ratios r) = set lags
     \<and> (\<forall>(k, v)\<in>set (variance_ratios r).
          v = fdiv (var (log_returns_k p k)) (fmul (Fin (of_int k)) (var (log_returns_k p 1)))
          \<and> (fgt (var (log_returns_k p 1)) (Fin 0) \<and> 0 < k \<longrightarrow>
               (v = NaN \<longleftrightarrow> var (log_returns_k p k) = NaN)
               \<and> (v = NaN \<or> fge v (Fin 0))))
     \<and> average_vr r = np_mean (map snd (variance_ratios r))
     \<and> (lags \<noteq> [] \<and> list_all is_fin (map snd (variance_ratios r)) \<longrightarrow>
          average_vr r = Fin (sum_list (map the_fin (map snd (variance_ratios r)))
                               / real (length (variance_ratios r))))
     \<and> (\<forall>xs. list_all is_fin xs \<and> 2 \<le> length xs \<longrightarrow>
          var xs = Fin ((\<Sum>x\<leftarrow>map the_fin xs. (x - mean_r (map the_fin xs))\<^sup>2)
                         / (real (length xs) - 1)))"
proof -
  from efficiency_Inr [OF assms] obtain p where p: "column df ''mid_price'' = Inr p" by blast
  let ?V = "var (log_returns_k p 1)"
  let ?rs = "fold (\<lambda>k acc. AList.update k (var_ratio p ?V k) acc) lags []"
  from efficiency_result [OF p, of lags] assms
  have r: "variance_ratios r = ?rs" "average_vr r = np_mean (map snd ?rs)" by auto
  have keys: "fst ` set ?rs = set lags" by (simp add: fold_update_keys)
  have vals: "\<forall>(k, v)\<in>set ?rs.
          v = fdiv (var (log_returns_k p k)) (fmul (Fin (of_int k)) ?V)
          \<and> (fgt ?V (Fin 0) \<and> 0 < k \<longrightarrow>
               (v = NaN \<longleftrightarrow> var (log_returns_k p k) = NaN)
               \<and> (v = NaN \<or> fge v (Fin 0)))"
  proof (clarify, intro conjI impI)
    fix k v assume kv: "(k, v) \<in> set ?rs"
    from fold_update_entries [OF kv] have v: "v = var_ratio p ?V k" by simp
    then show "v = fdiv (var (log_returns_k p k)) (fmul (Fin (of_int k)) ?V)"
      by (simp add: var_ratio_def)
    assume h: "fgt ?V (Fin 0) \<and> 0 < k"
    with var_ratio_NaN_iff [of ?V k p] var_not_PInf
    show "v = NaN \<longleftrightarrow> var (log_returns_k p k) = NaN" by (simp add: v)
    from h var_ratio_nonneg [of ?V k p] var_not_PInf
    show "v = NaN \<or> fge v (Fin 0)" by (simp add: v)
  qed
  have mean: "lags \<noteq> [] \<and> list_all is_fin (map snd ?rs) \<longrightarrow>
          np_mean (map snd ?rs) = Fin (sum_list (map the_fin (map snd ?rs)) / real (length ?rs))"
  proof
    assume a: "lags \<noteq> [] \<and> list_all is_fin (map snd ?rs)"
    with keys have "?rs \<noteq> []" by auto
    with a np_mean_finite [of "map snd ?rs"] show
      "np_mean (map snd ?rs) = Fin (sum_list (map the_fin (map snd ?rs)) / real (length ?rs))"
      by (simp add: mean_r_def)
  qed
  have unbiased: "\<forall>xs. list_all is_fin xs \<and> 2 \<le> length xs \<longrightarrow>
          var xs = Fin ((\<Sum>x\<leftarrow>map the_fin xs. (x - mean_r (map the_fin xs))\<^sup>2)
                         / (real (length xs) - 1))"
  proof (intro allI impI)
    fix xs :: "fl list" assume a: "list_all is_fin xs \<and> 2 \<le> length xs"
    then have "dropna xs = xs"
      by (auto simp: dropna_def list_all_iff filter_id_conv)
    with a show "var xs = Fin ((\<Sum>x\<leftarrow>map the_fin xs. (x - mean_r (map the_fin xs))\<^sup>2)
                         / (real (length xs) - 1))"
      by (simp add: var_def Let_def sumsq_dev_def)
  qed
  from p keys vals mean unbiased show ?thesis unfolding r by blast
qed

theorem variance_ratio_values_witness:
  "test_market_efficiency short_frame [1] =
     Inr \<lparr>variance_ratios = [(1, Fin 1)], average_vr = Fin 1,
          market_characterization = ''Approximately efficient (random walk)''\<rparr>
   \<and> column short_frame ''mid_price'' = Inr [Fin 1, Fin 2, Fin 2]
   \<and> fgt (var (log_returns_k [Fin 1, Fin 2, Fin 2] 1)) (Fin 0)
   \<and> Fin 1 = fdiv (var (log_returns_k [Fin 1, Fin 2, Fin 2] 1))
                  (fmul (Fin (of_int 1)) (var (log_returns_k [Fin 1, Fin 2, Fin 2] 1)))
   \<and> fge (Fin 1) (Fin 0)"
proof -
  from variance_ratio_values [OF short_result_1] column_short
  have "Fin 1 = fdiv (var (log_returns_k [Fin 1, Fin 2, Fin 2] 1))
                  (fmul (Fin (of_int 1)) (var (log_returns_k [Fin 1, Fin 2, Fin 2] 1)))"
    by auto
  moreover have "fgt (var (log_returns_k [Fin 1, Fin 2, Fin 2] 1)) (Fin 0)"
    by (simp add: short_variance)
  ultimately show ?thesis using short_result_1 column_short by (simp add: fge_Fin)
qed

text \<open>The claim as stated fails: with prices 1, 2, 2 the one-step variance is positive,
  only one two-step return exists, and the ratio for lag 2 is NaN, which is not
  non-negative.\<close>

theorem variance_ratio_undefined_with_positive_variance:
  "test_market_efficiency short_frame [2] =
     Inr \<lparr>variance_ratios = [(2, NaN)], average_vr = NaN,
          market_characterization = ''Approximately efficient (random walk)''\<rparr>
   \<and> fgt (var (log_returns_k [Fin 1, Fin 2, Fin 2] 1)) (Fin 0)
   \<and> \<not> fge NaN (Fin 0)"
proof -
  have v2: "var (log_returns_k [Fin 1, Fin 2, Fin 2] 2) = NaN"
    by (simp add: short_returns_2 var_def dropna_def)
  show ?thesis
    by (simp add: efficiency_result [OF column_short] short_variance v2 var_ratio_def
        np_mean_def characterize_NaN fge_def feq_def)
qed

subsection \<open>Comparisons with NaN and the Python maximum\<close>

lemma fgt_NaN_right [simp]: "\<not> fgt a NaN"
  by (cases a) auto

lemma fgt_trans: "fgt a b \<Longrightarrow> fgt b c \<Longrightarrow> fgt a c"
  by (cases a; cases b; cases c) auto

lemma fgt_irrefl [simp]: "\<not> fgt a a"
  by (cases a) auto

lemma fgt_asym: "fgt a b \<Longrightarrow> \<not> fgt b a"
  by (cases a; cases b) auto

lemma fgt_total: "a \<noteq> NaN \<Longrightarrow> b \<noteq> NaN \<Longrightarrow> fgt a b \<or> a = b \<or> fgt b a"
  by (cases a; cases b) auto

lemma fgt_not_NaN: "fgt a b \<Longrightarrow> a \<noteq> NaN \<and> b \<noteq> NaN"
  by (cases a; cases b) auto

lemma fge_iff: "fge a b \<longleftrightarrow> fgt a b \<or> (a = b \<and> a \<noteq> NaN)"
  by (auto simp: fge_def feq_def)

lemma fge_trans_gt: "fge a b \<Longrightarrow> fgt b c \<Longrightarrow> fgt a c"
  by (auto simp: fge_iff dest: fgt_trans)

lemma fge_trans: "fge a b \<Longrightarrow> fge b c \<Longrightarrow> fge a c"
  by (auto simp: fge_iff dest: fgt_trans)

lemma not_fgt_fge: "a \<noteq> NaN \<Longrightarrow> b \<noteq> NaN \<Longrightarrow> \<not> fgt a b \<Longrightarrow> fge b a"
  using fgt_total [of a b] by (auto simp: fge_iff)

lemma max_from_mem: "max_from c m xs \<in> set (m # xs)"
  by (induction xs arbitrary: m) auto

lemma max_from_NaN: "c m = NaN \<Longrightarrow> max_from c m xs = m"
  by (induction xs) auto

lemma max_from_defined:
  "c m \<noteq> NaN \<Longrightarrow>
     c (max_from c m xs) \<noteq> NaN \<and> fge (c (max_from c m xs)) (c m)
     \<and> (\<forall>x\<in>set xs. c x \<noteq> NaN \<longrightarrow> fge (c (max_from c m xs)) (c x))"
proof (induction xs arbitrary: m)
  case Nil
  then show ?case by (simp add: fge_iff)
next
  case (Cons x xs)
  show ?case
  proof (cases "fgt (c x) (c m)")
    case True
    then have nx: "c x \<noteq> NaN" by (auto dest: fgt_not_NaN)
    from Cons.IH [OF nx] True show ?thesis
      by (auto simp: fge_iff dest: fgt_trans)
  next
    case False
    from Cons.IH [OF Cons.prems] have ih: "c (max_from c m xs) \<noteq> NaN"
      "fge (c (max_from c m xs)) (c m)"
      "\<forall>y\<in>set xs. c y \<noteq> NaN \<longrightarrow> fge (c (max_from c m xs)) (c y)" by auto
    have "c x \<noteq> NaN \<longrightarrow> fge (c (max_from c m xs)) (c x)"
    proof
      assume "c x \<noteq> NaN"
      with False Cons.prems have "fge (c m) (c x)" by (auto intro: not_fgt_fge)
      with ih(2) show "fge (c (max_from c m xs)) (c x)" by (rule fge_trans)
    qed
    with ih False show ?thesis by simp
  qed
qed

lemma max_from_no_greater: "\<forall>x\<in>set (m # xs). \<not> fgt (c x) (c (max_from c m xs))"
proof (cases "c m = NaN")
  case True
  then show ?thesis by (simp add: max_from_NaN)
next
  case False
  from max_from_defined [of c m xs] False
  have d: "c (max_from c m xs) \<noteq> NaN" "fge (c (max_from c m xs)) (c m)"
    "\<forall>x\<in>set xs. c x \<noteq> NaN \<longrightarrow> fge (c (max_from c m xs)) (c x)" by auto
  show ?thesis
  proof
    fix x assume "x \<in> set (m # xs)"
    with d have "c x = NaN \<or> fge (c (max_from c m xs)) (c x)" by auto
    then show "\<not> fgt (c x) (c (max_from c m xs))"
      by (auto simp: fge_iff dest: fgt_asym)
  qed
qed

lemma max_from_first:
  "c m \<noteq> NaN \<Longrightarrow>
     \<exists>ys zs. m # xs = ys @ max_from c m xs # zs \<and> (\<forall>y\<in>set ys. c y \<noteq> c (max_from c m xs))"
proof (induction xs arbitrary: m)
  case Nil
  have "[m] = [] @ max_from c m [] # []" "\<forall>y\<in>set []. c y \<noteq> c (max_from c m [])" by simp_all
  then show ?case by blast
next
  case (Cons x xs)
  show ?case
  proof (cases "fgt (c x) (c m)")
    case True
    then have nx: "c x \<noteq> NaN" by (auto dest: fgt_not_NaN)
    from True have r: "max_from c m (x # xs) = max_from c x xs" by simp
    from Cons.IH [OF nx] obtain ys zs where
      s: "x # xs = ys @ max_from c x xs # zs" and f: "\<forall>y\<in>set ys. c y \<noteq> c (max_from c x xs)"
      by blast
    from max_from_defined [of c x xs] nx True have "fgt (c (max_from c x xs)) (c m)"
      by (auto dest: fge_trans_gt)
    then have "c m \<noteq> c (max_from c x xs)" by auto
    with s f have "m # x # xs = (m # ys) @ max_from c x xs # zs"
      "\<forall>y\<in>set (m # ys). c y \<noteq> c (max_from c x xs)" by simp_all
    then show ?thesis unfolding r by blast
  next
    case False
    then have r: "max_from c m (x # xs) = max_from c m xs" by simp
    from Cons.IH [OF Cons.prems] obtain ys zs where
      s: "m # xs = ys @ max_from c m xs # zs" and f: "\<forall>y\<in>set ys. c y \<noteq> c (max_from c m xs)"
      by blast
    show ?thesis
    proof (cases ys)
      case Nil
      with s have mm: "max_from c m xs = m" by (metis append_Nil list.inject)
      have "m # x # xs = [] @ max_from c m xs # x # xs"
        "\<forall>y\<in>set []. c y \<noteq> c (max_from c m xs)" by (simp_all add: mm)
      then show ?thesis unfolding r by blast
    next
      case (Cons y ys')
      with s have "m # xs = y # (ys' @ max_from c m xs # zs)" by (simp only: append_Cons)
      then have y: "y = m" and xs: "xs = ys' @ max_from c m xs # zs"
        by (metis list.inject)+
      from f Cons y have ne: "c m \<noteq> c (max_from c m xs)" by simp
      from max_from_defined [of c m xs] Cons.prems ne
      have gt: "fgt (c (max_from c m xs)) (c m)" and nn: "c (max_from c m xs) \<noteq> NaN"
        by (auto simp: fge_iff)
      have "c x \<noteq> c (max_from c m xs)"
      proof
        assume e: "c x = c (max_from c m xs)"
        with gt False show False by simp
      qed
      with f Cons y have "\<forall>y\<in>set (m # x # ys'). c y \<noteq> c (max_from c m xs)" by simp
      moreover from xs have "m # x # xs = (m # x # ys') @ max_from c m xs # zs" by simp
      ultimately show ?thesis unfolding r by blast
    qed
  qed
qed

end
